theory Spec2Isabelle
  imports Main "HOL-Library.AList"
begin

section \<open>The server-side TranslationManager (langswitch-core)\<close>

subsection \<open>Data\<close>

text \<open>
  A JavaScript \<open>Map\<close> and a plain object parsed from JSON are both modelled as
  association lists in insertion order. \<open>Map.get\<close> is \<open>map_of\<close>, \<open>Map.has\<close> is
  membership of the key, \<open>Map.set\<close> is \<open>AList.update\<close> (the value is replaced in
  place when the key exists and the entry is appended otherwise). Keys are unique in any
  \<open>Map\<close> and in any object; the predicates \<open>wf_texts\<close>, \<open>wf_store\<close> say so.
  Values of a language bucket are strings, as the declaration file types them. The
  order in which an object lists keys that look like array indices is not modelled; the
  properties below are about the values found under keys.
\<close>

type_synonym texts = "(string \<times> string) list"
type_synonym store = "(string \<times> texts) list"

definition Map_get :: "('k \<times> 'v) list \<Rightarrow> 'k \<Rightarrow> 'v option" where
  "Map_get m k = map_of m k"

definition Map_has :: "('k \<times> 'v) list \<Rightarrow> 'k \<Rightarrow> bool" where
  "Map_has m k = (k \<in> fst ` set m)"

definition Map_set :: "'k \<Rightarrow> 'v \<Rightarrow> ('k \<times> 'v) list \<Rightarrow> ('k \<times> 'v) list" where
  "Map_set k v m = AList.update k v m"

text \<open>\<open>this.translations.get(lang)?.get(text)\<close>\<close>

definition lookup :: "store \<Rightarrow> string \<Rightarrow> string \<Rightarrow> string option" where
  "lookup tr lang text =
     (case Map_get tr lang of None \<Rightarrow> None | Some langMap \<Rightarrow> Map_get langMap text)"

definition wf_texts :: "texts \<Rightarrow> bool" where
  "wf_texts ts = distinct (map fst ts)"

definition wf_store :: "store \<Rightarrow> bool" where
  "wf_store st = (distinct (map fst st) \<and> list_all (\<lambda>(lang, ts). wf_texts ts) st)"

text \<open>
  What \<open>fs.readFile\<close> followed by \<open>JSON.parse\<close> can find at \<open>filePath\<close>: no
  readable file (\<open>readFile\<close> rejects), a file whose content makes \<open>JSON.parse\<close> (or
  the top-level \<open>Object.entries\<close>) throw, or a document of the persisted layout.
\<close>

datatype disk = Missing | Garbled | Doc store

fun wf_disk :: "disk \<Rightarrow> bool" where
  "wf_disk (Doc d) = wf_store d"
| "wf_disk _ = True"

text \<open>What the file holds for a language and a text.\<close>

fun stored :: "disk \<Rightarrow> string \<Rightarrow> string \<Rightarrow> string option" where
  "stored (Doc d) lang text = lookup d lang text"
| "stored _ lang text = None"

text \<open>
  The outcome of one \<open>fetch\<close> of the translation API: the transport rejects, the
  response is not ok, \<open>response.json()\<close> rejects, or the body is read and its
  \<open>translatedText\<close> field is present or not.
\<close>

datatype response = NetworkFailure | NotOk | BadBody | Body "string option"

text \<open>
  The remote service answers a request for a text and a language; the answer may depend
  on the requests made before it.
\<close>

type_synonym remote = "(string \<times> string) list \<Rightarrow> string \<Rightarrow> string \<Rightarrow> response"

datatype err = SaveFailed | NoResponse | ApiError | JsonError | InvalidResponse

text \<open>
  The manager after its \<open>initPromise\<close> has settled, with the file it works on:
  \<open>translationsMap\<close> is the in-memory cache \<open>this.translations\<close>, \<open>fileContent\<close> the
  content at \<open>filePath\<close>, \<open>writable\<close> says whether \<open>fs.writeFile\<close> succeeds,
  \<open>writes\<close> counts the completed calls of \<open>fs.writeFile\<close>, and \<open>calls\<close> records the
  requests sent to the remote API.
\<close>

record manager =
  translationsMap :: store
  fileContent :: disk
  writable :: bool
  writes :: nat
  calls :: "(string \<times> string) list"

text \<open>A JavaScript value used as a condition: \<open>undefined\<close> and \<open>""\<close> are falsy.\<close>

fun truthy :: "string option \<Rightarrow> bool" where
  "truthy None = False"
| "truthy (Some s) = (s \<noteq> [])"

subsection \<open>Operations\<close>

text \<open>\<open>new Map(Object.entries(texts))\<close> and \<open>Object.fromEntries(map)\<close>: the entries
  are inserted one after the other.\<close>

definition fromEntries :: "('k \<times> 'v) list \<Rightarrow> ('k \<times> 'v) list" where
  "fromEntries es = fold (\<lambda>(k, v) acc. Map_set k v acc) es []"

text \<open>
  \<open>initialize\<close>: a failing read is replaced by \<open>"{}"\<close>, so nothing is set; a parse error
  is caught and empties the cache; otherwise every language of the file replaces the
  bucket of that language. The cache is not cleared first.
\<close>

definition initialize :: "manager \<Rightarrow> manager" where
  "initialize m =
     (case fileContent m of
        Missing \<Rightarrow> m
      | Garbled \<Rightarrow> m\<lparr>translationsMap := []\<rparr>
      | Doc d \<Rightarrow>
          m\<lparr>translationsMap :=
              fold (\<lambda>(lang, texts) tr. Map_set lang (fromEntries texts) tr) d (translationsMap m)\<rparr>)"

text \<open>The inner \<open>forEach\<close> of \<open>checkFileUpdates\<close>, on one language bucket.\<close>

definition syncTexts :: "texts \<Rightarrow> texts \<Rightarrow> texts" where
  "syncTexts texts langMap =
     fold (\<lambda>(text, translation) lm.
             if Map_get lm text \<noteq> Some translation then Map_set text translation lm else lm)
          texts langMap"

definition syncLang :: "string \<Rightarrow> texts \<Rightarrow> store \<Rightarrow> store" where
  "syncLang lang texts tr =
     (let tr1 = (if \<not> Map_has tr lang then Map_set lang [] tr else tr)
      in case Map_get tr1 lang of
           None \<Rightarrow> tr1
         | Some langMap \<Rightarrow> Map_set lang (syncTexts texts langMap) tr1)"

text \<open>\<open>checkFileUpdates\<close>: any error of the read or the parse is caught and logged.\<close>

definition checkFileUpdates :: "manager \<Rightarrow> manager" where
  "checkFileUpdates m =
     (case fileContent m of
        Doc fileTranslations \<Rightarrow>
          m\<lparr>translationsMap :=
              fold (\<lambda>(lang, texts) tr. syncLang lang texts tr) fileTranslations (translationsMap m)\<rparr>
      | _ \<Rightarrow> m)"

definition getTranslation :: "string \<Rightarrow> string \<Rightarrow> manager \<Rightarrow> string option \<times> manager" where
  "getTranslation text lang m =
     (let m1 = checkFileUpdates m in (lookup (translationsMap m1) lang text, m1))"

text \<open>
  \<open>mergedData[lang] = value\<close> on the object literal \<open>mergedData\<close>. An ordinary
  assignment of the key \<open>__proto__\<close> to an object without an own property of that name
  reaches the accessor of \<open>Object.prototype\<close> and replaces the prototype instead of
  adding a property, so \<open>JSON.stringify\<close> does not see it.
\<close>

definition assignProp :: "string \<Rightarrow> 'v \<Rightarrow> (string \<times> 'v) list \<Rightarrow> (string \<times> 'v) list" where
  "assignProp k v obj =
     (if k = ''__proto__'' \<and> \<not> Map_has obj k then obj else Map_set k v obj)"

text \<open>\<open>{ ...a, ...b }\<close>: the properties of \<open>a\<close>, then those of \<open>b\<close> over them.\<close>

definition spread :: "('k \<times> 'v) list \<Rightarrow> ('k \<times> 'v) list \<Rightarrow> ('k \<times> 'v) list" where
  "spread a b = fold (\<lambda>(k, v) acc. Map_set k v acc) b (fromEntries a)"

definition mergeData :: "store \<Rightarrow> store \<Rightarrow> store" where
  "mergeData currentTranslations memoryData =
     fold (\<lambda>(lang, texts) mergedData.
             assignProp lang
               (spread (case Map_get memoryData lang of None \<Rightarrow> [] | Some ts \<Rightarrow> ts) texts)
               mergedData)
          currentTranslations (fromEntries memoryData)"

text \<open>\<open>readFile(...).catch(() => "{}")\<close> followed by \<open>JSON.parse\<close>.\<close>

fun readCurrent :: "disk \<Rightarrow> store option" where
  "readCurrent Missing = Some []"
| "readCurrent Garbled = None"
| "readCurrent (Doc d) = Some d"

text \<open>The object \<open>memoryData\<close> built from the entries of the cache.\<close>

definition memoryData_of :: "store \<Rightarrow> store" where
  "memoryData_of tr = fromEntries (map (\<lambda>(lang, texts). (lang, fromEntries texts)) tr)"

text \<open>
  \<open>saveTranslations\<close>: a failing read counts as \<open>"{}"\<close>; a parse error or a failing
  write is rethrown as "Failed to save translations". After the write the cache is
  reloaded with \<open>initialize\<close>.
\<close>

definition saveTranslations :: "manager \<Rightarrow> (err + unit) \<times> manager" where
  "saveTranslations m =
     (case readCurrent (fileContent m) of
        None \<Rightarrow> (Inl SaveFailed, m)
      | Some currentTranslations \<Rightarrow>
          (let memoryData = memoryData_of (translationsMap m);
               mergedData = mergeData currentTranslations memoryData
           in if writable m
              then (Inr (), initialize (m\<lparr>fileContent := Doc mergedData, writes := writes m + 1\<rparr>))
              else (Inl SaveFailed, m)))"

definition updateTranslation ::
    "string \<Rightarrow> string \<Rightarrow> string \<Rightarrow> bool \<Rightarrow> manager \<Rightarrow> (err + unit) \<times> manager" where
  "updateTranslation text lang translation isUserModified m =
     (let m1 = checkFileUpdates m;
          tr1 = (if \<not> Map_has (translationsMap m1) lang then Map_set lang [] (translationsMap m1)
                 else translationsMap m1);
          langMap = (case Map_get tr1 lang of None \<Rightarrow> [] | Some lm \<Rightarrow> lm);
          currentTranslation = Map_get langMap text
      in if \<not> truthy currentTranslation \<or> isUserModified
         then saveTranslations
                (m1\<lparr>translationsMap := Map_set lang (Map_set text translation langMap) tr1\<rparr>)
         else (Inr (), m1\<lparr>translationsMap := tr1\<rparr>))"

text \<open>
  \<open>translateText\<close>. The rejection of \<open>fetch\<close> is caught and logged by the \<open>.catch\<close>
  on the call, which leaves \<open>response\<close> undefined, so that reading \<open>response.ok\<close>
  throws; every error of the \<open>try\<close> block is logged and rethrown.
\<close>

definition translateText ::
    "remote \<Rightarrow> string \<Rightarrow> string \<Rightarrow> manager \<Rightarrow> (err + string) \<times> manager" where
  "translateText api text lang m =
     (let m1 = checkFileUpdates m;
          (cached, m2) = getTranslation text lang m1
      in case cached of
           Some (c # cs) \<Rightarrow> (Inr (c # cs), m2)
         | _ \<Rightarrow>
           (let m3 = m2\<lparr>calls := calls m2 @ [(text, lang)]\<rparr>
            in case api (calls m2) text lang of
                 NetworkFailure \<Rightarrow> (Inl NoResponse, m3)
               | NotOk \<Rightarrow> (Inl ApiError, m3)
               | BadBody \<Rightarrow> (Inl JsonError, m3)
               | Body None \<Rightarrow> (Inl InvalidResponse, m3)
               | Body (Some []) \<Rightarrow> (Inl InvalidResponse, m3)
               | Body (Some (t # ts)) \<Rightarrow>
                   (case updateTranslation text lang (t # ts) False m3 of
                      (Inl e, m4) \<Rightarrow> (Inl e, m4)
                    | (Inr u, m4) \<Rightarrow> (Inr (t # ts), m4))))"

text \<open>\<open>createTranslationManager\<close>: the constructor starts \<open>initialize\<close> on an empty cache.\<close>

definition createTranslationManager :: "disk \<Rightarrow> bool \<Rightarrow> manager" where
  "createTranslationManager f w =
     initialize \<lparr>translationsMap = [], fileContent = f, writable = w, writes = 0, calls = []\<rparr>"

text \<open>The cache after lines 122 to 130 of \<open>updateTranslation\<close>: the bucket of the
  language is created when missing and the entry is set in it.\<close>

definition setEntry :: "string \<Rightarrow> string \<Rightarrow> string \<Rightarrow> store \<Rightarrow> store" where
  "setEntry lang text translation tr =
     (let tr1 = (if \<not> Map_has tr lang then Map_set lang [] tr else tr);
          langMap = (case Map_get tr1 lang of None \<Rightarrow> [] | Some lm \<Rightarrow> lm)
      in Map_set lang (Map_set text translation langMap) tr1)"

text \<open>The answers of the remote API on which \<open>translateText\<close> throws.\<close>

fun failing :: "response \<Rightarrow> bool" where
  "failing (Body (Some (c # cs))) = False"
| "failing _ = True"

section \<open>The client-side Translate component (langswitch-react)\<close>

subsection \<open>The session cache and translateText\<close>

text \<open>
  The module-level \<open>TranslationManager\<close> of \<open>Translate.jsx\<close> with its \<open>memoryCache\<close>,
  and the list of the requests that \<open>fetch\<close> has sent to the translation endpoint, each
  with its text and its target language.
\<close>

record client =
  memoryCache :: "(string \<times> string) list"
  requests :: "(string \<times> string) list"

definition getCacheKey :: "string \<Rightarrow> string \<Rightarrow> string" where
  "getCacheKey text targetLang = text @ '':'' @ targetLang"

definition getTranslation_client :: "client \<Rightarrow> string \<Rightarrow> string \<Rightarrow> string option" where
  "getTranslation_client s text targetLang = Map_get (memoryCache s) (getCacheKey text targetLang)"

definition setTranslation :: "string \<Rightarrow> string \<Rightarrow> string \<Rightarrow> client \<Rightarrow> client" where
  "setTranslation text targetLang translation s =
     s\<lparr>memoryCache := Map_set (getCacheKey text targetLang) translation (memoryCache s)\<rparr>"

datatype client_err = FetchRejected | JsonRejected

text \<open>
  \<open>translateText\<close> of the client. The result is the translated text or \<open>undefined\<close>
  (\<open>None\<close>). A response that is not ok gives the text back; a rejection of \<open>fetch\<close> or of
  \<open>response.json()\<close> is logged and rethrown.
\<close>

definition translateText_client ::
    "remote \<Rightarrow> string \<Rightarrow> string \<Rightarrow> client \<Rightarrow> (client_err + string option) \<times> client" where
  "translateText_client api text targetLang s =
     (case getTranslation_client s text targetLang of
        Some (c # cs) \<Rightarrow> (Inr (Some (c # cs)), s)
      | _ \<Rightarrow>
        (let s1 = s\<lparr>requests := requests s @ [(text, targetLang)]\<rparr>
         in case api (requests s) text targetLang of
              NetworkFailure \<Rightarrow> (Inl FetchRejected, s1)
            | NotOk \<Rightarrow> (Inr (Some text), s1)
            | BadBody \<Rightarrow> (Inl JsonRejected, s1)
            | Body translatedText \<Rightarrow>
                (Inr translatedText,
                 case translatedText of
                   Some (c # cs) \<Rightarrow> setTranslation text targetLang (c # cs) s1
                 | _ \<Rightarrow> s1)))"

subsection \<open>The tree of React nodes\<close>

text \<open>
  The \<open>children\<close> property of an element is absent (or a falsy value that is not a
  string), a single string, or anything that \<open>React.Children\<close> walks as a list of nodes
  (one node, or an array, which React flattens).
\<close>

datatype 'n children = Absent | OnlyStr string | Nodes "'n list"

text \<open>
  A node is a string, a valid element, an empty node (\<open>null\<close>, \<open>undefined\<close> or a boolean)
  or any other value that is neither a string nor an element, such as a number. An
  element has a label that stands for its type and its other properties, the flag
  \<open>"ignore" in node.props\<close>, and its children.
\<close>

datatype node =
    Str string
  | Elem string bool "node children"
  | Empty
  | Other nat

text \<open>
  \<open>String.prototype.trim\<close>. A \<open>string\<close> is a list of bytes, the UTF-8 encoding of the
  JavaScript string. \<open>whiteSpaceCodes\<close> lists the encodings of the code points that
  ECMAScript strips: the white space U+0009, U+000B, U+000C, U+0020, U+00A0, U+FEFF and
  the other space separators U+1680, U+2000 to U+200A, U+202F, U+205F and U+3000, and the
  line terminators U+000A, U+000D, U+2028 and U+2029.
\<close>

definition whiteSpaceCodes :: "string list" where
  "whiteSpaceCodes =
     [[CHR 0x09], [CHR 0x0A], [CHR 0x0B], [CHR 0x0C], [CHR 0x0D], [CHR 0x20],
      [CHR 0xC2, CHR 0xA0],
      [CHR 0xE1, CHR 0x9A, CHR 0x80],
      [CHR 0xE2, CHR 0x80, CHR 0x80], [CHR 0xE2, CHR 0x80, CHR 0x81],
      [CHR 0xE2, CHR 0x80, CHR 0x82], [CHR 0xE2, CHR 0x80, CHR 0x83],
      [CHR 0xE2, CHR 0x80, CHR 0x84], [CHR 0xE2, CHR 0x80, CHR 0x85],
      [CHR 0xE2, CHR 0x80, CHR 0x86], [CHR 0xE2, CHR 0x80, CHR 0x87],
      [CHR 0xE2, CHR 0x80, CHR 0x88], [CHR 0xE2, CHR 0x80, CHR 0x89],
      [CHR 0xE2, CHR 0x80, CHR 0x8A],
      [CHR 0xE2, CHR 0x80, CHR 0xA8], [CHR 0xE2, CHR 0x80, CHR 0xA9],
      [CHR 0xE2, CHR 0x80, CHR 0xAF],
      [CHR 0xE2, CHR 0x81, CHR 0x9F],
      [CHR 0xE3, CHR 0x80, CHR 0x80],
      [CHR 0xEF, CHR 0xBB, CHR 0xBF]]"

definition startsWith :: "string \<Rightarrow> string \<Rightarrow> bool" where
  "startsWith w s = (take (length w) s = w)"

text \<open>
  The number of bytes of the white space at the start of a string, \<open>0\<close> when there is
  none. A byte \<open>0xA0\<close> at the start of a string begins no UTF-8 sequence; it is read as the
  code unit U+00A0 itself, so that a no-break space written as the single character
  \<open>CHR 0xA0\<close> is stripped as well.
\<close>

definition leadingSpace :: "string \<Rightarrow> nat" where
  "leadingSpace s =
     (case find (\<lambda>w. startsWith w s) whiteSpaceCodes of
        Some w \<Rightarrow> length w
      | None \<Rightarrow> if startsWith [CHR 0xA0] s then 1 else 0)"

text \<open>
  The same for the end of a string, which is given in reverse. Bytes \<open>0xA0\<close> at the end
  that follow an ASCII byte, or nothing, end no UTF-8 sequence and are read as U+00A0.
\<close>

definition trailingSpace :: "string \<Rightarrow> nat" where
  "trailingSpace r =
     (case find (\<lambda>w. startsWith (rev w) r) whiteSpaceCodes of
        Some w \<Rightarrow> length w
      | None \<Rightarrow>
          if startsWith [CHR 0xA0] r \<and>
             (case dropWhile (\<lambda>c. c = CHR 0xA0) r of
                [] \<Rightarrow> True
              | c # cs \<Rightarrow> (of_char c :: nat) < 0x80)
          then 1 else 0)"

text \<open>White space is removed as long as the string starts with some.\<close>

fun dropSpaces :: "(string \<Rightarrow> nat) \<Rightarrow> string \<Rightarrow> string" where
  "dropSpaces f [] = []"
| "dropSpaces f (c # cs) =
     (case f (c # cs) of
        0 \<Rightarrow> c # cs
      | Suc n \<Rightarrow> dropSpaces f (drop n cs))"

definition trim :: "string \<Rightarrow> string" where
  "trim s = rev (dropSpaces trailingSpace (rev (dropSpaces leadingSpace s)))"

subsection \<open>traverseAndTranslate\<close>

text \<open>
  \<open>collectTranslations\<close>: the items pushed on \<open>translationQueue\<close> for one node, in
  the order of the pushes.
\<close>

fun collectTranslations :: "node \<Rightarrow> nat \<Rightarrow> (string \<times> nat) list" where
  "collectTranslations (Str s) depth = [(trim s, depth)]"
| "collectTranslations (Elem tag ign kids) depth =
     (if ign then []
      else case kids of
             Absent \<Rightarrow> []
           | OnlyStr s \<Rightarrow> if s = [] then [] else collectTranslations (Str s) (depth + 1)
           | Nodes ns \<Rightarrow> concat (map (\<lambda>child. collectTranslations child (depth + 1)) ns))"
| "collectTranslations Empty depth = []"
| "collectTranslations (Other v) depth = []"

text \<open>The loop over the sorted queue that fills \<open>translationMap\<close>; the first rejection
  ends it.\<close>

type_synonym translationMap = "(string \<times> string option) list"

fun fillTranslationMap ::
    "remote \<Rightarrow> string \<Rightarrow> (string \<times> nat) list \<Rightarrow> translationMap \<Rightarrow> client
       \<Rightarrow> (client_err + translationMap) \<times> client" where
  "fillTranslationMap api lang [] tm s = (Inr tm, s)"
| "fillTranslationMap api lang ((text, depth) # queue) tm s =
     (if \<not> Map_has tm text
      then case translateText_client api text lang s of
             (Inl e, s') \<Rightarrow> (Inl e, s')
           | (Inr translation, s') \<Rightarrow>
               fillTranslationMap api lang queue (Map_set text translation tm) s'
      else fillTranslationMap api lang queue tm s)"

text \<open>\<open>translationMap.get(s.trim()) || s\<close>\<close>

definition substitute :: "translationMap \<Rightarrow> string \<Rightarrow> string" where
  "substitute tm s =
     (case Map_get tm (trim s) of
        Some (Some (c # cs)) \<Rightarrow> c # cs
      | _ \<Rightarrow> s)"

fun applyTranslations :: "translationMap \<Rightarrow> node \<Rightarrow> node" where
  "applyTranslations tm (Str s) = Str (substitute tm s)"
| "applyTranslations tm (Elem tag ign kids) =
     (if ign then Elem tag ign kids
      else Elem tag ign
             (case kids of
                Absent \<Rightarrow> Absent
              | OnlyStr s \<Rightarrow> if s = [] then OnlyStr s else OnlyStr (substitute tm s)
              | Nodes ns \<Rightarrow> Nodes (map (applyTranslations tm) ns)))"
| "applyTranslations tm Empty = Empty"
| "applyTranslations tm (Other v) = Other v"

text \<open>
  \<open>traverseAndTranslate\<close>. The queue is sorted by depth with \<open>sort_key\<close>, an insertion
  sort that keeps the order of items of equal depth, as \<open>Array.prototype.sort\<close> does.
\<close>

definition traverseAndTranslate ::
    "remote \<Rightarrow> node list \<Rightarrow> string \<Rightarrow> client \<Rightarrow> (client_err + node list) \<times> client" where
  "traverseAndTranslate api children lang s =
     (let translationQueue = concat (map (\<lambda>child. collectTranslations child 0) children);
          sorted = sort_key snd translationQueue
      in case fillTranslationMap api lang sorted [] s of
           (Inl e, s') \<Rightarrow> (Inl e, s')
         | (Inr translationMap, s') \<Rightarrow> (Inr (map (applyTranslations translationMap) children), s'))"

subsection \<open>The Translate component\<close>

text \<open>
  The state of one instance: the three \<open>useState\<close> cells, the two refs, the dependencies
  of the last run of the effect with the flag that this run returned a cleanup, and the
  number of translation passes started so far. The \<open>children\<close> property is a reference
  (two values are \<open>===\<close> exactly when the references are equal) with the nodes it holds.
\<close>

record component =
  translatedContent :: "node list"
  loading :: bool
  error :: "string option"
  isMounted :: bool
  prevChildrenRef :: "nat option"
  lastDeps :: "(nat \<times> string) option"
  hasCleanup :: bool
  passes :: nat

text \<open>\<open>React.Children.toArray\<close> drops the empty nodes.\<close>

definition toArray :: "node list \<Rightarrow> node list" where
  "toArray ns = filter (\<lambda>n. n \<noteq> Empty) ns"

text \<open>
  \<open>performTranslation\<close>, run to its end; \<open>stillMounted\<close> is the value of
  \<open>isMounted.current\<close> when the traversal settles.
\<close>

definition performTranslation ::
    "remote \<Rightarrow> node list \<Rightarrow> string \<Rightarrow> bool \<Rightarrow> component \<times> client \<Rightarrow> component \<times> client" where
  "performTranslation api children lang stillMounted cs =
     (let (c, s) = cs;
          c1 = c\<lparr>loading := True, error := None, passes := passes c + 1\<rparr>;
          (result, s') = traverseAndTranslate api (toArray children) lang s;
          c2 = c1\<lparr>isMounted := stillMounted\<rparr>;
          c3 = (case result of
                  Inr translated \<Rightarrow>
                    if isMounted c2 then c2\<lparr>translatedContent := translated\<rparr> else c2
                | Inl err \<Rightarrow>
                    if isMounted c2 then c2\<lparr>error := Some ''Translation failed.''\<rparr> else c2)
      in (if isMounted c3 then c3\<lparr>loading := False\<rparr> else c3, s'))"

text \<open>The body of the effect.\<close>

definition effect ::
    "remote \<Rightarrow> nat \<times> node list \<Rightarrow> string \<Rightarrow> bool \<Rightarrow> component \<times> client
       \<Rightarrow> component \<times> client" where
  "effect api children lang stillMounted cs =
     (let (c, s) = cs;
          c0 = c\<lparr>isMounted := True\<rparr>;
          hasChildrenChanged = (prevChildrenRef c0 \<noteq> Some (fst children));
          c1 = c0\<lparr>prevChildrenRef := Some (fst children)\<rparr>
      in if \<not> hasChildrenChanged then (c1\<lparr>hasCleanup := False\<rparr>, s)
         else performTranslation api (snd children) lang stillMounted (c1\<lparr>hasCleanup := True\<rparr>, s))"

text \<open>
  One render of \<open>Translate\<close> with given properties: React runs the effect when
  \<open>children\<close> or \<open>lang\<close> differs from the last run (and on the first render), after the
  cleanup of the last run if it returned one.
\<close>

definition render :: 
    "remote \<Rightarrow> nat \<times> node list \<Rightarrow> string \<Rightarrow> bool \<Rightarrow> component \<times> client
       \<Rightarrow> component \<times> client" where
  "render api children lang stillMounted cs =
     (let (c, s) = cs
      in if lastDeps c = Some (fst children, lang) then (c, s)
         else effect api children lang stillMounted
                ((if hasCleanup c then c\<lparr>isMounted := False\<rparr> else c)
                   \<lparr>lastDeps := Some (fst children, lang)\<rparr>, s))"

text \<open>The first render: \<open>useState(children)\<close> and the initial values of the refs.\<close>

definition mount :: "nat \<times> node list \<Rightarrow> component" where
  "mount children =
     \<lparr>translatedContent = snd children, loading = False, error = None, isMounted = True,
      prevChildrenRef = None, lastDeps = None, hasCleanup = False, passes = 0\<rparr>"

text \<open>What the component returns: the error text, or the translated content.\<close>

definition rendered :: "component \<Rightarrow> string + node list" where
  "rendered c = (case error c of Some e \<Rightarrow> Inl e | None \<Rightarrow> Inr (translatedContent c))"

subsection \<open>Positions in a tree\<close>

text \<open>The child of an element at an index of its list of children.\<close>

fun childAt :: "node \<Rightarrow> nat \<Rightarrow> node option" where
  "childAt (Elem tag ign (Nodes ns)) i = (if i < length ns then Some (ns ! i) else None)"
| "childAt _ i = None"

text \<open>The subtree at a path of indices, and the tree with that subtree replaced.\<close>

fun subtreeAt :: "node \<Rightarrow> nat list \<Rightarrow> node option" where
  "subtreeAt n [] = Some n"
| "subtreeAt n (i # p) = (case childAt n i of None \<Rightarrow> None | Some c \<Rightarrow> subtreeAt c p)"

fun replaceAt :: "node \<Rightarrow> nat list \<Rightarrow> node \<Rightarrow> node" where
  "replaceAt n [] new = new"
| "replaceAt (Elem tag ign (Nodes ns)) (i # p) new =
     (if i < length ns then Elem tag ign (Nodes (ns[i := replaceAt (ns ! i) p new]))
      else Elem tag ign (Nodes ns))"
| "replaceAt n (i # p) new = n"

text \<open>The same for the list of top-level children, where a path starts with the index
  of a child.\<close>

fun subtreeAtList :: "node list \<Rightarrow> nat list \<Rightarrow> node option" where
  "subtreeAtList ns [] = None"
| "subtreeAtList ns (i # p) = (if i < length ns then subtreeAt (ns ! i) p else None)"

fun replaceAtList :: "node list \<Rightarrow> nat list \<Rightarrow> node \<Rightarrow> node list" where
  "replaceAtList ns [] new = ns"
| "replaceAtList ns (i # p) new =
     (if i < length ns then ns[i := replaceAt (ns ! i) p new] else ns)"

text \<open>The texts queued for a list of children, and the requests that a traversal sends.\<close>

definition queueOf :: "node list \<Rightarrow> (string \<times> nat) list" where
  "queueOf children = concat (map (\<lambda>child. collectTranslations child 0) children)"

definition sent :: "remote \<Rightarrow> node list \<Rightarrow> string \<Rightarrow> client \<Rightarrow> (string \<times> string) list" where
  "sent api children lang s =
     drop (length (requests s)) (requests (snd (traverseAndTranslate api children lang s)))"

text \<open>The session cache holds a translation that \<open>translateText\<close> returns at once.\<close>

definition cachedTruthy :: "client \<Rightarrow> string \<Rightarrow> string \<Rightarrow> bool" where
  "cachedTruthy s text targetLang = truthy (getTranslation_client s text targetLang)"

text \<open>
  The answers on which the client's \<open>translateText\<close> throws: \<open>fetch\<close> rejects, or
  \<open>response.json()\<close> does.
\<close>

fun rejected :: "response \<Rightarrow> bool" where
  "rejected NetworkFailure = True"
| "rejected BadBody = True"
| "rejected _ = False"

text \<open>What the client's \<open>translateText\<close> returns for a text on an answer that is not
  rejected: the text itself when the response is not ok, else the field of the body.\<close>

fun translationOf :: "response \<Rightarrow> string \<Rightarrow> string option" where
  "translationOf NotOk text = Some text"
| "translationOf (Body translatedText) text = translatedText"
| "translationOf _ text = None"

text \<open>
  The answer of the endpoint to the request that a traversal sends for a text: the
  endpoint has seen the requests made before the traversal and those that the traversal
  sent before this one.
\<close>

definition answerTo :: "remote \<Rightarrow> node list \<Rightarrow> string \<Rightarrow> client \<Rightarrow> string \<Rightarrow> response" where
  "answerTo api children lang s text =
     api (requests s @ takeWhile (\<lambda>x. x \<noteq> (text, lang)) (sent api children lang s)) text lang"

text \<open>
  The translation that a traversal obtains for a text: the one the session cache holds,
  or else the one the endpoint gives.
\<close>

definition obtained :: "remote \<Rightarrow> node list \<Rightarrow> string \<Rightarrow> client \<Rightarrow> string \<Rightarrow> string option" where
  "obtained api children lang s text =
     (if cachedTruthy s text lang then getTranslation_client s text lang
      else translationOf (answerTo api children lang s text) text)"

section \<open>Lemmas about the server-side manager\<close>


lemma map_of_fold_keyed:
  assumes "distinct (map fst d)"
    and "\<And>k v acc. map_of (step (k, v) acc) = (map_of acc)(k := h k v (map_of acc k))"
  shows "map_of (fold step d acc) k =
           (case map_of d k of None \<Rightarrow> map_of acc k | Some v \<Rightarrow> h k v (map_of acc k))"
  using assms(1)
proof (induction d arbitrary: acc)
  case Nil
  then show ?case by simp
next
  case (Cons x d)
  obtain k0 v0 where x: "x = (k0, v0)" by (cases x)
  from Cons.prems have nin: "map_of d k0 = None" and dd: "distinct (map fst d)"
    by (auto simp: x map_of_eq_None_iff)
  show ?case
    using Cons.IH [OF dd, of "step (k0, v0) acc"] nin
    by (auto simp: x assms(2) split: option.splits)
qed

lemma distinct_fold_keyed:
  assumes "\<And>x acc. distinct (map fst acc) \<Longrightarrow> distinct (map fst (step x acc))"
    and "distinct (map fst acc)"
  shows "distinct (map fst (fold step d acc))"
  using assms(2) by (induction d arbitrary: acc) (auto intro: assms(1))

lemma map_of_Map_set: "map_of (Map_set k v m) = (map_of m)(k \<mapsto> v)"
  by (simp add: Map_set_def update_conv')

lemma distinct_Map_set: "distinct (map fst m) \<Longrightarrow> distinct (map fst (Map_set k v m))"
  by (simp add: Map_set_def distinct_update)

lemma Map_has_iff: "Map_has m k \<longleftrightarrow> map_of m k \<noteq> None"
  by (simp add: Map_has_def map_of_eq_None_iff)

lemma distinct_fromEntries: "distinct (map fst (fromEntries es))"
  unfolding fromEntries_def
  by (rule distinct_fold_keyed) (auto simp: distinct_Map_set)

lemma map_of_fromEntries:
  assumes "distinct (map fst es)"
  shows "map_of (fromEntries es) = map_of es"
proof
  fix k
  have "map_of (fold (\<lambda>(k, v) acc. Map_set k v acc) es []) k =
          (case map_of es k of None \<Rightarrow> map_of [] k | Some v \<Rightarrow> (\<lambda>k v old. Some v) k v (map_of [] k))"
    by (rule map_of_fold_keyed [OF assms]) (simp add: map_of_Map_set)
  then show "map_of (fromEntries es) k = map_of es k"
    by (simp add: fromEntries_def split: option.splits)
qed

lemma distinct_spread: "distinct (map fst (spread a b))"
  unfolding spread_def
  by (rule distinct_fold_keyed) (auto simp: distinct_Map_set distinct_fromEntries)

lemma map_of_spread:
  assumes "distinct (map fst a)" "distinct (map fst b)"
  shows "map_of (spread a b) = map_of a ++ map_of b"
proof
  fix k
  have "map_of (fold (\<lambda>(k, v) acc. Map_set k v acc) b (fromEntries a)) k =
          (case map_of b k of None \<Rightarrow> map_of (fromEntries a) k
           | Some v \<Rightarrow> (\<lambda>k v old. Some v) k v (map_of (fromEntries a) k))"
    by (rule map_of_fold_keyed [OF assms(2)]) (simp add: map_of_Map_set)
  then show "map_of (spread a b) k = (map_of a ++ map_of b) k"
    by (simp add: spread_def map_of_fromEntries [OF assms(1)] map_add_def split: option.splits)
qed

lemma distinct_syncTexts:
  "distinct (map fst lm) \<Longrightarrow> distinct (map fst (syncTexts texts lm))"
  unfolding syncTexts_def
  by (rule distinct_fold_keyed) (auto simp: distinct_Map_set)

lemma map_of_syncTexts:
  assumes "distinct (map fst texts)"
  shows "map_of (syncTexts texts lm) = map_of lm ++ map_of texts"
proof
  fix k
  have "map_of (fold (\<lambda>(text, translation) lm.
             if Map_get lm text \<noteq> Some translation then Map_set text translation lm else lm)
          texts lm) k =
          (case map_of texts k of None \<Rightarrow> map_of lm k
           | Some v \<Rightarrow> (\<lambda>k v old. Some v) k v (map_of lm k))"
    by (rule map_of_fold_keyed [OF assms]) (auto simp: map_of_Map_set Map_get_def)
  then show "map_of (syncTexts texts lm) k = (map_of lm ++ map_of texts) k"
    by (simp add: syncTexts_def map_add_def split: option.splits)
qed

lemma map_of_syncLang:
  "map_of (syncLang lang texts tr) =
     (map_of tr)(lang \<mapsto> syncTexts texts (case map_of tr lang of None \<Rightarrow> [] | Some lm \<Rightarrow> lm))"
  by (auto simp: syncLang_def Let_def Map_has_iff Map_get_def map_of_Map_set
           split: option.splits)

lemma distinct_syncLang:
  "distinct (map fst tr) \<Longrightarrow> distinct (map fst (syncLang lang texts tr))"
  by (auto simp: syncLang_def Let_def distinct_Map_set split: option.splits)


lemma fold_invariant:
  assumes "\<And>x acc. P acc \<Longrightarrow> P (step x acc)" and "P acc"
  shows "P (fold step d acc)"
  using assms(2) by (induction d arbitrary: acc) (auto intro: assms(1))

lemma wf_store_iff:
  "wf_store st \<longleftrightarrow>
     distinct (map fst st) \<and> (\<forall>lang ts. map_of st lang = Some ts \<longrightarrow> distinct (map fst ts))"
  by (auto simp: wf_store_def wf_texts_def list_all_iff dest: map_of_SomeD)

lemma wf_store_syncLang: "wf_store tr \<Longrightarrow> wf_store (syncLang lang texts tr)"
  by (auto simp: wf_store_iff distinct_syncLang map_of_syncLang distinct_syncTexts
           split: option.splits if_splits)

lemma wf_store_checkFileUpdates:
  "wf_store (translationsMap m) \<Longrightarrow> wf_store (translationsMap (checkFileUpdates m))"
  by (auto simp: checkFileUpdates_def split: disk.splits prod.splits
           intro!: fold_invariant [where P = wf_store] wf_store_syncLang)

lemma map_of_checkFileUpdates:
  assumes "fileContent m = Doc d" "distinct (map fst d)"
  shows "map_of (translationsMap (checkFileUpdates m)) lang =
           (case map_of d lang of
              None \<Rightarrow> map_of (translationsMap m) lang
            | Some texts \<Rightarrow>
                Some (syncTexts texts
                        (case map_of (translationsMap m) lang of None \<Rightarrow> [] | Some lm \<Rightarrow> lm)))"
proof -
  have "map_of (fold (\<lambda>(lang, texts) tr. syncLang lang texts tr) d (translationsMap m)) lang =
          (case map_of d lang of
             None \<Rightarrow> map_of (translationsMap m) lang
           | Some texts \<Rightarrow>
               (\<lambda>k v old. Some (syncTexts v (case old of None \<Rightarrow> [] | Some lm \<Rightarrow> lm)))
                 lang texts (map_of (translationsMap m) lang))"
    by (rule map_of_fold_keyed [OF assms(2)]) (simp add: map_of_syncLang)
  then show ?thesis by (simp add: checkFileUpdates_def assms(1))
qed

lemma lookup_checkFileUpdates:
  assumes "fileContent m = Doc d" "wf_store d"
  shows "lookup (translationsMap (checkFileUpdates m)) lang text =
           (case lookup d lang text of
              Some v \<Rightarrow> Some v
            | None \<Rightarrow> lookup (translationsMap m) lang text)"
proof -
  from assms(2) have dd: "distinct (map fst d)"
    and di: "\<And>ts. map_of d lang = Some ts \<Longrightarrow> distinct (map fst ts)"
    by (auto simp: wf_store_iff)
  show ?thesis
    using di
    by (auto simp: lookup_def Map_get_def map_of_checkFileUpdates [OF assms(1) dd]
                   map_of_syncTexts map_add_def split: option.splits)
qed

lemma checkFileUpdates_no_doc:
  "\<forall>d. fileContent m \<noteq> Doc d \<Longrightarrow> checkFileUpdates m = m"
  by (auto simp: checkFileUpdates_def split: disk.splits)

lemma checkFileUpdates_frame:
  "fileContent (checkFileUpdates m) = fileContent m"
  "writable (checkFileUpdates m) = writable m"
  "writes (checkFileUpdates m) = writes m"
  "calls (checkFileUpdates m) = calls m"
  by (auto simp: checkFileUpdates_def split: disk.splits)


lemma map_of_assignProp:
  "map_of (assignProp k v obj) =
     (map_of obj)(k := if k = ''__proto__'' \<and> map_of obj k = None then None else Some v)"
  by (auto simp: assignProp_def Map_has_iff map_of_Map_set)

lemma distinct_assignProp:
  "distinct (map fst obj) \<Longrightarrow> distinct (map fst (assignProp k v obj))"
  by (simp add: assignProp_def distinct_Map_set)

lemma map_of_mergeData:
  assumes "distinct (map fst d)" "distinct (map fst memoryData)"
  shows "map_of (mergeData d memoryData) lang =
           (case map_of d lang of
              None \<Rightarrow> map_of memoryData lang
            | Some texts \<Rightarrow>
                if lang = ''__proto__'' \<and> map_of memoryData lang = None then None
                else Some (spread (case map_of memoryData lang of None \<Rightarrow> [] | Some ts \<Rightarrow> ts)
                             texts))"
proof -
  have "map_of (fold (\<lambda>(lang, texts) mergedData.
             assignProp lang
               (spread (case map_of memoryData lang of None \<Rightarrow> [] | Some ts \<Rightarrow> ts) texts)
               mergedData) d (fromEntries memoryData)) lang =
          (case map_of d lang of
             None \<Rightarrow> map_of (fromEntries memoryData) lang
           | Some texts \<Rightarrow>
               (\<lambda>k v old. if k = ''__proto__'' \<and> old = None then None
                          else Some (spread (case map_of memoryData k of None \<Rightarrow> []
                                             | Some ts \<Rightarrow> ts) v))
                 lang texts (map_of (fromEntries memoryData) lang))"
    by (rule map_of_fold_keyed [OF assms(1)]) (simp add: map_of_assignProp)
  then show ?thesis
    unfolding mergeData_def Map_get_def
    by (simp add: map_of_fromEntries [OF assms(2)] split: option.splits)
qed

lemma distinct_mergeData: "distinct (map fst (mergeData d memoryData))"
  unfolding mergeData_def
  by (rule distinct_fold_keyed) (auto simp: distinct_assignProp distinct_fromEntries)

lemma map_of_memoryData:
  assumes "distinct (map fst tr)"
  shows "map_of (memoryData_of tr) lang = map_option fromEntries (map_of tr lang)"
proof -
  have "fst \<circ> (\<lambda>(lang, texts). (lang, fromEntries texts)) = (fst :: string \<times> texts \<Rightarrow> string)"
    by (simp add: fun_eq_iff)
  with assms have "distinct (map fst (map (\<lambda>(lang, texts). (lang, fromEntries texts)) tr))"
    by simp
  then show ?thesis
    by (simp add: memoryData_of_def map_of_fromEntries map_of_map)
qed

lemma lookup_mergeData:
  assumes "wf_store d" "wf_store tr"
  shows "lookup (mergeData d (memoryData_of tr)) lang text =
           (if lang = ''__proto__'' \<and> \<not> Map_has tr lang then None
            else case lookup d lang text of
                   Some v \<Rightarrow> Some v
                 | None \<Rightarrow> lookup tr lang text)"
proof -
  from assms have dd: "distinct (map fst d)" and dt: "distinct (map fst tr)"
    and di: "\<And>ts. map_of d lang = Some ts \<Longrightarrow> distinct (map fst ts)"
    and ti: "\<And>ts. map_of tr lang = Some ts \<Longrightarrow> distinct (map fst ts)"
    by (auto simp: wf_store_iff)
  have dm: "distinct (map fst (memoryData_of tr))"
    by (simp add: memoryData_of_def distinct_fromEntries)
  show ?thesis
    using di ti
    by (auto simp: lookup_def Map_get_def Map_has_iff map_of_mergeData [OF dd dm]
                   map_of_memoryData [OF dt] map_of_spread distinct_fromEntries
                   map_of_fromEntries map_add_def
             split: option.splits)
qed

lemma wf_store_mergeData:
  assumes "wf_store d" "wf_store tr"
  shows "wf_store (mergeData d (memoryData_of tr))"
proof -
  from assms have dd: "distinct (map fst d)" and dt: "distinct (map fst tr)"
    by (auto simp: wf_store_iff)
  have dm: "distinct (map fst (memoryData_of tr))"
    by (simp add: memoryData_of_def distinct_fromEntries)
  show ?thesis
    by (auto simp: wf_store_iff distinct_mergeData map_of_mergeData [OF dd dm]
                   map_of_memoryData [OF dt] distinct_spread distinct_fromEntries
             split: option.splits if_splits)
qed

lemma map_of_initialize:
  assumes "fileContent m = Doc d" "distinct (map fst d)"
  shows "map_of (translationsMap (initialize m)) lang =
           (case map_of d lang of
              None \<Rightarrow> map_of (translationsMap m) lang
            | Some texts \<Rightarrow> Some (fromEntries texts))"
proof -
  have "map_of (fold (\<lambda>(lang, texts) tr. Map_set lang (fromEntries texts) tr) d
                  (translationsMap m)) lang =
          (case map_of d lang of
             None \<Rightarrow> map_of (translationsMap m) lang
           | Some texts \<Rightarrow>
               (\<lambda>k v old. Some (fromEntries v)) lang texts (map_of (translationsMap m) lang))"
    by (rule map_of_fold_keyed [OF assms(2)]) (simp add: map_of_Map_set)
  then show ?thesis by (simp add: initialize_def assms(1))
qed

lemma initialize_frame:
  "fileContent (initialize m) = fileContent m"
  "writable (initialize m) = writable m"
  "writes (initialize m) = writes m"
  "calls (initialize m) = calls m"
  by (auto simp: initialize_def split: disk.splits)

lemma wf_store_initialize:
  assumes "wf_store (translationsMap m)"
  shows "wf_store (translationsMap (initialize m))"
proof -
  have step: "wf_store (Map_set lang (fromEntries texts) tr)" if "wf_store tr"
    for lang texts and tr :: store
    using that by (auto simp: wf_store_iff distinct_Map_set map_of_Map_set distinct_fromEntries
                        split: if_splits)
  have "wf_store (fold (\<lambda>(lang, texts) tr. Map_set lang (fromEntries texts) tr) d
                    (translationsMap m))" for d
    by (rule fold_invariant [where P = wf_store]) (auto intro: step assms)
  moreover have "wf_store []" by (simp add: wf_store_def)
  ultimately show ?thesis
    using assms by (simp add: initialize_def split: disk.splits)
qed


lemma fold_fixed:
  assumes "\<And>x. x \<in> set d \<Longrightarrow> step x acc = acc"
  shows "fold step d acc = acc"
  using assms by (induction d) auto

lemma checkFileUpdates_idem:
  assumes "wf_disk (fileContent m)"
  shows "checkFileUpdates (checkFileUpdates m) = checkFileUpdates m"
proof (cases "fileContent m")
  case (Doc d)
  with assms have wf: "wf_store d" by simp
  then have dd: "distinct (map fst d)" by (simp add: wf_store_iff)
  let ?tr = "translationsMap (checkFileUpdates m)"
  have "syncLang lang texts ?tr = ?tr" if mem: "(lang, texts) \<in> set d" for lang texts
  proof -
    from mem dd have dl: "map_of d lang = Some texts" by simp
    with wf have dt: "distinct (map fst texts)" by (auto simp: wf_store_iff)
    define lm where
      "lm = syncTexts texts (case map_of (translationsMap m) lang of None \<Rightarrow> [] | Some lm \<Rightarrow> lm)"
    have get: "map_of ?tr lang = Some lm"
      by (simp add: map_of_checkFileUpdates [OF Doc dd] dl lm_def)
    have "(if Map_get lm t \<noteq> Some v then Map_set t v lm else lm) = lm"
      if "(t, v) \<in> set texts" for t v
      using that dt by (simp add: Map_get_def lm_def map_of_syncTexts map_add_def)
    then have "syncTexts texts lm = lm"
      unfolding syncTexts_def by (intro fold_fixed) auto
    with get show ?thesis
      by (simp add: syncLang_def Map_has_iff Map_get_def Map_set_def update_triv)
  qed
  then have "fold (\<lambda>(lang, texts) tr. syncLang lang texts tr) d ?tr = ?tr"
    by (intro fold_fixed) auto
  then show ?thesis
    using Doc by (simp add: checkFileUpdates_def)
qed (simp_all add: checkFileUpdates_def)

lemma wf_disk_checkFileUpdates: "wf_disk (fileContent (checkFileUpdates m)) = wf_disk (fileContent m)"
  by (simp add: checkFileUpdates_frame)

lemma saveTranslations_ok:
  assumes rd: "readCurrent (fileContent m) = Some d"
    and wd: "wf_store d" and wt: "wf_store (translationsMap m)" and w: "writable m"
  shows "\<exists>m'. saveTranslations m = (Inr (), m')
           \<and> fileContent m' = Doc (mergeData d (memoryData_of (translationsMap m)))
           \<and> writes m' = writes m + 1 \<and> calls m' = calls m \<and> writable m'
           \<and> wf_store (translationsMap m')
           \<and> wf_store (mergeData d (memoryData_of (translationsMap m)))
           \<and> (\<forall>lang text. lookup (translationsMap m') lang text =
                  lookup (mergeData d (memoryData_of (translationsMap m))) lang text)"
proof -
  define merged where "merged = mergeData d (memoryData_of (translationsMap m))"
  define m1 where "m1 = m\<lparr>fileContent := Doc merged, writes := writes m + 1\<rparr>"
  have sv: "saveTranslations m = (Inr (), initialize m1)"
    by (simp add: saveTranslations_def rd w Let_def m1_def merged_def)
  have fc: "fileContent m1 = Doc merged" and tm: "translationsMap m1 = translationsMap m"
    and fr: "writes m1 = writes m + 1" "calls m1 = calls m" "writable m1 = writable m"
    by (simp_all add: m1_def)
  from wd wt have dd: "distinct (map fst d)" and dt: "distinct (map fst (translationsMap m))"
    by (auto simp: wf_store_iff)
  have dm: "distinct (map fst (memoryData_of (translationsMap m)))"
    by (simp add: memoryData_of_def distinct_fromEntries)
  have wm: "wf_store merged" unfolding merged_def by (rule wf_store_mergeData [OF wd wt])
  then have dmg: "distinct (map fst merged)" by (simp add: wf_store_iff)
  have lk: "lookup (translationsMap (initialize m1)) lang t = lookup merged lang t"
    for lang t
  proof (cases "map_of merged lang")
    case None
    then have "map_of (translationsMap m) lang = None"
      by (auto simp: merged_def map_of_mergeData [OF dd dm] map_of_memoryData [OF dt]
               split: option.splits if_splits)
    with None show ?thesis
      by (simp add: lookup_def Map_get_def map_of_initialize [OF fc dmg] tm)
  next
    case (Some texts)
    with wm have "distinct (map fst texts)" by (auto simp: wf_store_iff)
    with Some show ?thesis
      by (simp add: lookup_def Map_get_def map_of_initialize [OF fc dmg] map_of_fromEntries)
  qed
  have "wf_store (translationsMap (initialize m1))"
    by (rule wf_store_initialize) (simp add: wt tm)
  with sv lk wm show ?thesis
    by (simp add: initialize_frame w fc fr merged_def [symmetric])
qed

lemma saveTranslations_fail:
  "readCurrent (fileContent m) = None \<or> \<not> writable m \<Longrightarrow> saveTranslations m = (Inl SaveFailed, m)"
  by (auto simp: saveTranslations_def Let_def split: option.splits)

lemma readCurrent_wf: "wf_disk f \<Longrightarrow> readCurrent f = Some d \<Longrightarrow> wf_store d"
  by (cases f) (auto simp: wf_store_def)

lemma lookup_readCurrent: "readCurrent f = Some d \<Longrightarrow> lookup d lang text = stored f lang text"
  by (cases f) (auto simp: lookup_def Map_get_def)


lemmas server_defs =
  saveTranslations_def updateTranslation_def translateText_def getTranslation_def
  checkFileUpdates_def syncLang_def syncTexts_def initialize_def mergeData_def
  memoryData_of_def fromEntries_def spread_def assignProp_def
  Map_set_def Map_has_def Map_get_def lookup_def createTranslationManager_def
  wf_store_def wf_texts_def Let_def


lemma lookup_setEntry:
  "lookup (setEntry lang text translation tr) l t =
     (if l = lang \<and> t = text then Some translation else lookup tr l t)"
  by (auto simp: setEntry_def Let_def lookup_def Map_get_def Map_has_iff map_of_Map_set
           split: option.splits)

lemma Map_has_setEntry:
  "Map_has (setEntry lang text translation tr) l \<longleftrightarrow> l = lang \<or> Map_has tr l"
  by (auto simp: setEntry_def Let_def Map_has_iff Map_get_def map_of_Map_set)

lemma wf_store_setEntry:
  "wf_store tr \<Longrightarrow> wf_store (setEntry lang text translation tr)"
  by (auto simp: setEntry_def Let_def wf_store_iff Map_has_iff Map_get_def map_of_Map_set
                 distinct_Map_set
           split: option.splits if_splits)

lemma updateTranslation_unfold:
  "updateTranslation text lang translation isUserModified m =
     (let m1 = checkFileUpdates m
      in if \<not> truthy (lookup (translationsMap m1) lang text) \<or> isUserModified
         then saveTranslations (m1\<lparr>translationsMap := setEntry lang text translation (translationsMap m1)\<rparr>)
         else (Inr (), m1\<lparr>translationsMap :=
                 (if \<not> Map_has (translationsMap m1) lang
                  then Map_set lang [] (translationsMap m1) else translationsMap m1)\<rparr>))"
  by (auto simp: updateTranslation_def setEntry_def Let_def lookup_def Map_get_def Map_has_iff
                 map_of_Map_set
           split: option.splits)

lemma updateTranslation_suppressed:
  assumes "lookup (translationsMap (checkFileUpdates m)) lang text = Some v" "v \<noteq> []"
  shows "updateTranslation text lang translation False m = (Inr (), checkFileUpdates m)"
proof -
  from assms(1) have "Map_has (translationsMap (checkFileUpdates m)) lang"
    by (auto simp: lookup_def Map_get_def Map_has_iff split: option.splits)
  with assms show ?thesis
    by (simp add: updateTranslation_unfold Let_def)
qed

lemma Map_has_checkFileUpdates:
  assumes "fileContent m = Doc d" "distinct (map fst d)"
  shows "Map_has (translationsMap (checkFileUpdates m)) l \<longleftrightarrow>
           Map_has d l \<or> Map_has (translationsMap m) l"
  by (auto simp: Map_has_iff map_of_checkFileUpdates [OF assms] split: option.splits)

lemma lookup_checkFileUpdates_stored:
  assumes "wf_disk (fileContent m)"
  shows "lookup (translationsMap (checkFileUpdates m)) lang text =
           (case stored (fileContent m) lang text of
              Some v \<Rightarrow> Some v
            | None \<Rightarrow> lookup (translationsMap m) lang text)"
proof (cases "fileContent m")
  case (Doc d)
  with assms show ?thesis by (simp add: lookup_checkFileUpdates [OF Doc])
qed (simp_all add: checkFileUpdates_def)

lemma updateTranslation_written:
  assumes wt: "wf_store (translationsMap m)" and wd: "wf_disk (fileContent m)"
    and br: "\<not> truthy (lookup (translationsMap (checkFileUpdates m)) lang text) \<or> isUserModified"
    and rd: "fileContent m \<noteq> Garbled" and w: "writable m"
  shows "\<exists>m'. updateTranslation text lang translation isUserModified m = (Inr (), m')
           \<and> wf_disk (fileContent m') \<and> wf_store (translationsMap m')
           \<and> writes m' = writes m + 1 \<and> calls m' = calls m \<and> writable m'
           \<and> (\<forall>l t. stored (fileContent m') l t =
                  (case stored (fileContent m) l t of
                     Some w \<Rightarrow> Some w
                   | None \<Rightarrow> if l = lang \<and> t = text then Some translation
                             else lookup (translationsMap m) l t))
           \<and> (\<forall>l t. lookup (translationsMap m') l t = stored (fileContent m') l t)"
proof -
  define m1 where "m1 = checkFileUpdates m"
  define m2 where "m2 = m1\<lparr>translationsMap := setEntry lang text translation (translationsMap m1)\<rparr>"
  from rd obtain d where d: "readCurrent (fileContent m) = Some d"
    by (cases "fileContent m") auto
  have wfd: "wf_store d" by (rule readCurrent_wf [OF wd d])
  have f2: "fileContent m2 = fileContent m" "writable m2" "writes m2 = writes m" "calls m2 = calls m"
    and t2: "translationsMap m2 = setEntry lang text translation (translationsMap m1)"
    by (simp_all add: m2_def m1_def checkFileUpdates_frame w)
  have w1: "wf_store (translationsMap m1)"
    unfolding m1_def by (rule wf_store_checkFileUpdates [OF wt])
  have w2: "wf_store (translationsMap m2)" by (simp add: t2 wf_store_setEntry w1)
  have up: "updateTranslation text lang translation isUserModified m = saveTranslations m2"
    using br by (auto simp: updateTranslation_unfold Let_def m1_def m2_def)
  have hasd: "Map_has (translationsMap m1) l" if "Map_has d l" for l
  proof (cases "fileContent m")
    case (Doc d')
    with d have "d' = d" by simp
    with Doc wfd that show ?thesis
      by (simp add: m1_def Map_has_checkFileUpdates wf_store_iff)
  next
    case Missing
    with d that show ?thesis by (simp add: Map_has_def)
  next
    case Garbled
    with rd show ?thesis by simp
  qed
  have l1: "lookup (translationsMap m1) l t =
              (case stored (fileContent m) l t of Some v \<Rightarrow> Some v
               | None \<Rightarrow> lookup (translationsMap m) l t)" for l t
    unfolding m1_def by (rule lookup_checkFileUpdates_stored [OF wd])
  have nod: "lookup d l t = None" if "\<not> Map_has d l" for l t
    using that by (simp add: lookup_def Map_get_def Map_has_iff)
  from saveTranslations_ok [of m2 d] d wfd w2 f2 obtain m' where
    sv: "saveTranslations m2 = (Inr (), m')"
    and fc: "fileContent m' = Doc (mergeData d (memoryData_of (translationsMap m2)))"
    and fr: "writes m' = writes m + 1" "calls m' = calls m" "writable m'"
    and wm: "wf_store (translationsMap m')"
       "wf_store (mergeData d (memoryData_of (translationsMap m2)))"
    and lk: "\<And>l t. lookup (translationsMap m') l t =
                lookup (mergeData d (memoryData_of (translationsMap m2))) l t"
    by auto
  have lm: "stored (fileContent m') l t =
              (if l = ''__proto__'' \<and> \<not> Map_has (translationsMap m2) l then None
               else case stored (fileContent m) l t of
                      Some v \<Rightarrow> Some v
                    | None \<Rightarrow> lookup (translationsMap m2) l t)" for l t
    by (simp only: fc stored.simps lookup_mergeData [OF wfd w2] lookup_readCurrent [OF d])
  have l2: "lookup (translationsMap m2) l t =
              (if l = lang \<and> t = text then Some translation else lookup (translationsMap m1) l t)"
    for l t
    by (simp add: t2 lookup_setEntry)
  have st: "stored (fileContent m') l t =
              (case stored (fileContent m) l t of
                 Some w \<Rightarrow> Some w
               | None \<Rightarrow> if l = lang \<and> t = text then Some translation
                         else lookup (translationsMap m) l t)" for l t
  proof (cases "Map_has (translationsMap m2) l")
    case True
    then show ?thesis
      unfolding lm l2 l1 by (auto split: option.splits)
  next
    case False
    then have "l \<noteq> lang" "\<not> Map_has (translationsMap m1) l"
      by (auto simp: t2 Map_has_setEntry)
    with hasd [of l] have "\<not> Map_has d l" by blast
    from nod [OF this] have sn: "stored (fileContent m) l t = None"
      by (simp add: lookup_readCurrent [OF d])
    from \<open>\<not> Map_has (translationsMap m1) l\<close> have "lookup (translationsMap m1) l t = None"
      by (simp add: lookup_def Map_get_def Map_has_iff)
    then have "lookup (translationsMap m) l t = None"
      unfolding l1 sn by simp
    then show ?thesis
      unfolding lm l2 l1 using \<open>l \<noteq> lang\<close> sn by simp
  qed
  from up sv fr wm st lk fc show ?thesis by simp
qed

lemma updateTranslation_frame:
  "fileContent (snd (updateTranslation text lang translation u m)) = fileContent m
     \<or> fst (updateTranslation text lang translation u m) = Inr ()"
  by (auto simp: updateTranslation_unfold saveTranslations_def Let_def checkFileUpdates_frame
           split: option.splits)


lemma checkFileUpdates_calls:
  "checkFileUpdates (m\<lparr>calls := c\<rparr>) = (checkFileUpdates m)\<lparr>calls := c\<rparr>"
  by (simp add: checkFileUpdates_def split: disk.splits)

lemma translateText_unfold:
  assumes "wf_disk (fileContent m)"
  shows "translateText api text lang m =
     (let m2 = checkFileUpdates m
      in case lookup (translationsMap m2) lang text of
           Some (c # cs) \<Rightarrow> (Inr (c # cs), m2)
         | _ \<Rightarrow>
           (let m3 = m2\<lparr>calls := calls m @ [(text, lang)]\<rparr>
            in case api (calls m) text lang of
                 NetworkFailure \<Rightarrow> (Inl NoResponse, m3)
               | NotOk \<Rightarrow> (Inl ApiError, m3)
               | BadBody \<Rightarrow> (Inl JsonError, m3)
               | Body None \<Rightarrow> (Inl InvalidResponse, m3)
               | Body (Some []) \<Rightarrow> (Inl InvalidResponse, m3)
               | Body (Some (t # ts)) \<Rightarrow>
                   (case updateTranslation text lang (t # ts) False m3 of
                      (Inl e, m4) \<Rightarrow> (Inl e, m4)
                    | (Inr u, m4) \<Rightarrow> (Inr (t # ts), m4))))"
  unfolding translateText_def getTranslation_def Let_def split_conv
            checkFileUpdates_idem [OF assms] checkFileUpdates_frame
  by (rule refl)

lemma translateText_hit:
  assumes "wf_disk (fileContent m)"
    and "lookup (translationsMap (checkFileUpdates m)) lang text = Some v" "v \<noteq> []"
  shows "translateText api text lang m = (Inr v, checkFileUpdates m)"
  using assms(2,3) by (cases v) (simp_all add: translateText_unfold [OF assms(1)] Let_def)

lemma translateText_miss:
  assumes "wf_disk (fileContent m)"
    and "\<not> truthy (lookup (translationsMap (checkFileUpdates m)) lang text)"
  shows "translateText api text lang m =
     (let m3 = (checkFileUpdates m)\<lparr>calls := calls m @ [(text, lang)]\<rparr>
      in case api (calls m) text lang of
                 NetworkFailure \<Rightarrow> (Inl NoResponse, m3)
               | NotOk \<Rightarrow> (Inl ApiError, m3)
               | BadBody \<Rightarrow> (Inl JsonError, m3)
               | Body None \<Rightarrow> (Inl InvalidResponse, m3)
               | Body (Some []) \<Rightarrow> (Inl InvalidResponse, m3)
               | Body (Some (t # ts)) \<Rightarrow>
                   (case updateTranslation text lang (t # ts) False m3 of
                      (Inl e, m4) \<Rightarrow> (Inl e, m4)
                    | (Inr u, m4) \<Rightarrow> (Inr (t # ts), m4)))"
  using assms(2)
  by (auto simp: translateText_unfold [OF assms(1)] Let_def split: option.splits list.splits)

lemma translateText_miss_failing:
  assumes "wf_disk (fileContent m)"
    and "\<not> truthy (lookup (translationsMap (checkFileUpdates m)) lang text)"
    and "failing (api (calls m) text lang)"
  shows "isl (fst (translateText api text lang m))
       \<and> snd (translateText api text lang m) =
           (checkFileUpdates m)\<lparr>calls := calls m @ [(text, lang)]\<rparr>"
  using assms(3)
  by (auto simp: translateText_miss [OF assms(1,2)] Let_def
           split: response.splits option.splits list.splits)

lemma calls_updateTranslation:
  "calls (snd (updateTranslation text lang translation u m)) = calls m"
  by (auto simp: updateTranslation_unfold saveTranslations_def Let_def checkFileUpdates_frame
                 initialize_frame
           split: option.splits)

lemma calls_translateText_miss:
  assumes "wf_disk (fileContent m)"
    and "\<not> truthy (lookup (translationsMap (checkFileUpdates m)) lang text)"
  shows "calls (snd (translateText api text lang m)) = calls m @ [(text, lang)]"
proof -
  have "calls (snd (case updateTranslation text lang v False m3 of
                      (Inl e, m4) \<Rightarrow> (Inl e, m4)
                    | (Inr u, m4) \<Rightarrow> (Inr v, m4))) = calls m3" for v m3
    using calls_updateTranslation [of "text" lang v False m3]
    by (auto split: prod.splits sum.splits)
  then show ?thesis
    by (simp add: translateText_miss [OF assms] Let_def
             split: response.splits option.splits list.splits)
qed


lemma updateTranslation_write_fail:
  assumes "\<not> truthy (lookup (translationsMap (checkFileUpdates m)) lang text) \<or> isUserModified"
    and "fileContent m = Garbled \<or> \<not> writable m"
  shows "fst (updateTranslation text lang translation isUserModified m) = Inl SaveFailed"
proof -
  define m2 where
    "m2 = (checkFileUpdates m)\<lparr>translationsMap :=
             setEntry lang text translation (translationsMap (checkFileUpdates m))\<rparr>"
  have "readCurrent (fileContent m2) = None \<or> \<not> writable m2"
    using assms(2) by (auto simp: m2_def checkFileUpdates_frame)
  from saveTranslations_fail [OF this] assms(1) show ?thesis
    by (auto simp: updateTranslation_unfold Let_def m2_def)
qed


text \<open>Unique keys are an invariant of the cache.\<close>

lemma wf_store_createTranslationManager:
  "wf_store (translationsMap (createTranslationManager f w))"
  unfolding createTranslationManager_def
  by (rule wf_store_initialize) (simp add: wf_store_def)

lemma wf_store_saveTranslations:
  assumes "wf_store (translationsMap m)"
  shows "wf_store (translationsMap (snd (saveTranslations m)))"
proof -
  have "wf_store (translationsMap (initialize (m\<lparr>fileContent := f, writes := n\<rparr>)))" for f n
    by (rule wf_store_initialize) (simp add: assms)
  with assms show ?thesis
    by (simp add: saveTranslations_def Let_def split: option.splits)
qed

lemma wf_store_updateTranslation:
  assumes "wf_store (translationsMap m)"
  shows "wf_store (translationsMap (snd (updateTranslation text lang translation u m)))"
proof -
  have w1: "wf_store (translationsMap (checkFileUpdates m))"
    by (rule wf_store_checkFileUpdates [OF assms])
  then have "wf_store (Map_set lang [] (translationsMap (checkFileUpdates m)))"
    by (auto simp: wf_store_iff distinct_Map_set map_of_Map_set split: if_splits)
  moreover have "wf_store (translationsMap (snd (saveTranslations
      ((checkFileUpdates m)\<lparr>translationsMap :=
          setEntry lang text translation (translationsMap (checkFileUpdates m))\<rparr>))))"
    by (rule wf_store_saveTranslations) (simp add: wf_store_setEntry w1)
  ultimately show ?thesis
    using w1 by (simp add: updateTranslation_unfold Let_def)
qed

lemma wf_store_translateText:
  assumes "wf_store (translationsMap m)"
  shows "wf_store (translationsMap (snd (translateText api text lang m)))"
proof -
  define m2 where "m2 = checkFileUpdates (checkFileUpdates m)"
  have w2: "wf_store (translationsMap m2)"
    unfolding m2_def by (intro wf_store_checkFileUpdates assms)
  have "wf_store (translationsMap (snd (case updateTranslation text lang v False
              (m2\<lparr>calls := cl\<rparr>) of
                      (Inl e, m4) \<Rightarrow> (Inl e, m4)
                    | (Inr u, m4) \<Rightarrow> (Inr v, m4))))" for v cl
    using wf_store_updateTranslation [of "m2\<lparr>calls := cl\<rparr>" "text" lang v False] w2
    by (auto split: prod.splits sum.splits)
  with w2 show ?thesis
    by (simp add: translateText_def getTranslation_def Let_def m2_def [symmetric]
             split: option.splits list.splits response.splits)
qed

section \<open>Claims about the server-side manager\<close>

subsection \<open>C1: a user-modified update\<close>

text \<open>
  C1 says that \<open>updateTranslation\<close> with \<open>isUserModified = true\<close> overwrites any existing
  value, so that the cache and the file both hold the new translation afterwards, even
  when the file held another value. Evaluated on the manager loaded from the file
  \<open>{"es": {"hi": "hola"}}\<close>, the call \<open>updateTranslation("hi", "es", "buenos", true)\<close>
  completes, and the cache and the file both still hold \<open>"hola"\<close>: the new value is set
  in the cache, \<open>saveTranslations\<close> spreads the bucket of the file over it, and
  \<open>initialize\<close> reloads the cache from what was written.
\<close>

theorem updateTranslation_user_modified_lost:
  "fst (updateTranslation ''hi'' ''es'' ''buenos'' True
          (createTranslationManager (Doc [(''es'', [(''hi'', ''hola'')])]) True)) = Inr ()
   \<and> lookup (translationsMap (snd (updateTranslation ''hi'' ''es'' ''buenos'' True
          (createTranslationManager (Doc [(''es'', [(''hi'', ''hola'')])]) True)))) ''es'' ''hi''
       = Some ''hola''
   \<and> stored (fileContent (snd (updateTranslation ''hi'' ''es'' ''buenos'' True
          (createTranslationManager (Doc [(''es'', [(''hi'', ''hola'')])]) True)))) ''es'' ''hi''
       = Some ''hola''"
  by (simp add: server_defs)


text \<open>In particular the file does not hold the new value after the call.\<close>

theorem updateTranslation_user_modified_lost_witness:
  "stored (fileContent (snd (updateTranslation ''hi'' ''es'' ''buenos'' True
          (createTranslationManager (Doc [(''es'', [(''hi'', ''hola'')])]) True)))) ''es'' ''hi''
       \<noteq> Some ''buenos''"
  using updateTranslation_user_modified_lost by simp

subsection \<open>C2: the merge written by saveTranslations\<close>

text \<open>
  C2, as amended: the document written by \<open>saveTranslations\<close> is, per language, the union
  of the two text-to-translation maps in which the keys of the file take precedence over
  the same keys of the cache, while keys present on one side only are kept. The one
  exception is a language named \<open>__proto__\<close> that only the file has, which the assignment
  to \<open>mergedData\<close> does not store. The save succeeds when the file is missing or
  parses and the write succeeds.
\<close>

theorem saveTranslations_merge:
  assumes "readCurrent (fileContent m) = Some d"
    and "wf_store d" and "wf_store (translationsMap m)" and "writable m"
  shows "fst (saveTranslations m) = Inr () \<and>
         (\<forall>lang text.
            stored (fileContent (snd (saveTranslations m))) lang text =
              (if lang = ''__proto__'' \<and> \<not> Map_has (translationsMap m) lang then None
               else case lookup d lang text of
                      Some v \<Rightarrow> Some v
                    | None \<Rightarrow> lookup (translationsMap m) lang text))"
proof -
  from saveTranslations_ok [OF assms] obtain m' where
    "saveTranslations m = (Inr (), m')"
    "fileContent m' = Doc (mergeData d (memoryData_of (translationsMap m)))"
    by blast
  then show ?thesis
    by (simp add: lookup_mergeData [OF assms(2,3)])
qed


text \<open>The example of the claim: the file holds \<open>{fr: {a: x}}\<close>, the cache \<open>{fr: {b: y}}\<close>,
  and the written document holds both entries.\<close>

theorem saveTranslations_merge_witness:
  "readCurrent (fileContent \<lparr>translationsMap = [(''fr'', [(''b'', ''y'')])],
        fileContent = Doc [(''fr'', [(''a'', ''x'')])], writable = True, writes = 0, calls = []\<rparr>)
     = Some [(''fr'', [(''a'', ''x'')])]
   \<and> wf_store [(''fr'', [(''a'', ''x'')])] \<and> wf_store [(''fr'', [(''b'', ''y'')])]
   \<and> fst (saveTranslations \<lparr>translationsMap = [(''fr'', [(''b'', ''y'')])],
        fileContent = Doc [(''fr'', [(''a'', ''x'')])], writable = True, writes = 0, calls = []\<rparr>)
       = Inr ()
   \<and> stored (fileContent (snd (saveTranslations \<lparr>translationsMap = [(''fr'', [(''b'', ''y'')])],
        fileContent = Doc [(''fr'', [(''a'', ''x'')])], writable = True, writes = 0, calls = []\<rparr>)))
        ''fr'' ''a'' = Some ''x''
   \<and> stored (fileContent (snd (saveTranslations \<lparr>translationsMap = [(''fr'', [(''b'', ''y'')])],
        fileContent = Doc [(''fr'', [(''a'', ''x'')])], writable = True, writes = 0, calls = []\<rparr>)))
        ''fr'' ''b'' = Some ''y''"
  using saveTranslations_merge [of "\<lparr>translationsMap = [(''fr'', [(''b'', ''y'')])],
        fileContent = Doc [(''fr'', [(''a'', ''x'')])], writable = True, writes = 0, calls = []\<rparr>"
        "[(''fr'', [(''a'', ''x'')])]"]
  by (simp add: wf_store_def wf_texts_def lookup_def Map_get_def Map_has_def)


text \<open>Against the precedence of the cache that C2 states: with \<open>{fr: {a: x}}\<close> in the file
  and \<open>{fr: {a: y}}\<close> in the cache, the written document holds \<open>x\<close> for \<open>a\<close>.\<close>

theorem saveTranslations_memory_precedence_counterexample:
  "stored (fileContent (snd (saveTranslations \<lparr>translationsMap = [(''fr'', [(''a'', ''y'')])],
        fileContent = Doc [(''fr'', [(''a'', ''x'')])], writable = True, writes = 0, calls = []\<rparr>)))
        ''fr'' ''a'' = Some ''x''
   \<and> lookup (translationsMap \<lparr>translationsMap = [(''fr'', [(''a'', ''y'')])],
        fileContent = Doc [(''fr'', [(''a'', ''x'')])], writable = True, writes = 0, calls = []\<rparr>)
        ''fr'' ''a'' = Some ''y''"
  by (simp add: server_defs)


subsection \<open>C4: cache hits of translateText\<close>

text \<open>
  C4: when the cache holds a non-empty translation after reconciliation, \<open>translateText\<close>
  returns it, sends no request to the remote API and does not touch the file; a second call that follows a call
  which returned a value returns the same value and sends no further request, unless the
  file holds the empty string for the text; and when the cached translation is the empty
  string, the call is a miss and sends one request.
\<close>

theorem translateText_cache_hit:
  assumes wt: "wf_store (translationsMap m)" and wd: "wf_disk (fileContent m)"
  shows "(\<forall>v. lookup (translationsMap (checkFileUpdates m)) lang text = Some v \<and> v \<noteq> [] \<longrightarrow>
            fst (translateText api text lang m) = Inr v
          \<and> calls (snd (translateText api text lang m)) = calls m
          \<and> writes (snd (translateText api text lang m)) = writes m
          \<and> fileContent (snd (translateText api text lang m)) = fileContent m)
       \<and> (\<forall>v. fst (translateText api text lang m) = Inr v
              \<and> stored (fileContent m) lang text \<noteq> Some [] \<longrightarrow>
            fst (translateText api2 text lang (snd (translateText api text lang m))) = Inr v
          \<and> calls (snd (translateText api2 text lang (snd (translateText api text lang m))))
              = calls (snd (translateText api text lang m)))
       \<and> (lookup (translationsMap (checkFileUpdates m)) lang text = Some [] \<longrightarrow>
            calls (snd (translateText api text lang m)) = calls m @ [(text, lang)])"
proof (intro conjI allI impI)
  fix v
  assume "lookup (translationsMap (checkFileUpdates m)) lang text = Some v \<and> v \<noteq> []"
  then have "translateText api text lang m = (Inr v, checkFileUpdates m)"
    by (simp add: translateText_hit [OF wd])
  then show "fst (translateText api text lang m) = Inr v"
    and "calls (snd (translateText api text lang m)) = calls m"
    and "writes (snd (translateText api text lang m)) = writes m"
    and "fileContent (snd (translateText api text lang m)) = fileContent m"
    by (simp_all add: checkFileUpdates_frame)
next
  assume "lookup (translationsMap (checkFileUpdates m)) lang text = Some []"
  then have "\<not> truthy (lookup (translationsMap (checkFileUpdates m)) lang text)" by simp
  then show "calls (snd (translateText api text lang m)) = calls m @ [(text, lang)]"
    by (rule calls_translateText_miss [OF wd])
next
  fix v
  assume a: "fst (translateText api text lang m) = Inr v
               \<and> stored (fileContent m) lang text \<noteq> Some []"
  define m' where "m' = snd (translateText api text lang m)"
  have "wf_disk (fileContent m') \<and> lookup (translationsMap (checkFileUpdates m')) lang text = Some v
          \<and> v \<noteq> []"
  proof (cases "truthy (lookup (translationsMap (checkFileUpdates m)) lang text)")
    case True
    then obtain c where c: "lookup (translationsMap (checkFileUpdates m)) lang text = Some c" "c \<noteq> []"
      by (cases "lookup (translationsMap (checkFileUpdates m)) lang text") auto
    from translateText_hit [OF wd c, of api] a have "c = v" and m': "m' = checkFileUpdates m"
      by (simp_all add: m'_def)
    with c wd show ?thesis
      by (simp add: checkFileUpdates_idem checkFileUpdates_frame)
  next
    case False
    define m3 where "m3 = (checkFileUpdates m)\<lparr>calls := calls m @ [(text, lang)]\<rparr>"
    have cf3: "checkFileUpdates m3 = m3"
      by (simp add: m3_def checkFileUpdates_calls checkFileUpdates_idem [OF wd])
    have t3: "translationsMap m3 = translationsMap (checkFileUpdates m)"
      and f3: "fileContent m3 = fileContent m" "writable m3 = writable m"
      by (simp_all add: m3_def checkFileUpdates_frame)
    from False a obtain u where
      api: "api (calls m) text lang = Body (Some v)" and vne: "v \<noteq> []"
      and up: "updateTranslation text lang v False m3 = (Inr u, m')"
      by (auto simp: translateText_miss [OF wd False] Let_def m3_def [symmetric] m'_def
               split: response.splits option.splits list.splits prod.splits sum.splits)
    have br: "\<not> truthy (lookup (translationsMap (checkFileUpdates m3)) lang text) \<or> False"
      using False by (simp add: cf3 t3)
    have ok: "fileContent m3 \<noteq> Garbled" "writable m3"
      using updateTranslation_write_fail [OF br, of v] up by auto
    have w3: "wf_store (translationsMap m3)" "wf_disk (fileContent m3)"
      by (simp_all add: t3 f3 wd wf_store_checkFileUpdates [OF wt])
    from updateTranslation_written [OF w3 br ok, of v] up
    have wd': "wf_disk (fileContent m')"
      and st: "stored (fileContent m') lang text =
                 (case stored (fileContent m3) lang text of Some w \<Rightarrow> Some w | None \<Rightarrow> Some v)"
      by auto
    from False a have "stored (fileContent m) lang text = None"
      by (auto simp: lookup_checkFileUpdates_stored [OF wd] split: option.splits)
    with st have "stored (fileContent m') lang text = Some v" by (simp add: f3)
    with wd' vne show ?thesis
      by (simp add: lookup_checkFileUpdates_stored)
  qed
  then have "translateText api2 text lang m' = (Inr v, checkFileUpdates m')"
    by (simp add: translateText_hit)
  then show "fst (translateText api2 text lang (snd (translateText api text lang m))) = Inr v"
    and "calls (snd (translateText api2 text lang (snd (translateText api text lang m))))
              = calls (snd (translateText api text lang m))"
    by (simp_all add: m'_def checkFileUpdates_frame)
qed


text \<open>The file \<open>{es: {Hi: "Hola", Bye: ""}}\<close>: \<open>Hi\<close> is a hit, twice; \<open>Bye\<close> is a miss.\<close>

theorem translateText_cache_hit_witness:
  "wf_store [(''es'', [(''Hi'', ''Hola''), (''Bye'', '''')])]
   \<and> wf_disk (Doc [(''es'', [(''Hi'', ''Hola''), (''Bye'', '''')])])
   \<and> lookup (translationsMap (checkFileUpdates
        \<lparr>translationsMap = [(''es'', [(''Hi'', ''Hola''), (''Bye'', '''')])],
         fileContent = Doc [(''es'', [(''Hi'', ''Hola''), (''Bye'', '''')])],
         writable = True, writes = 0, calls = []\<rparr>)) ''es'' ''Hi'' = Some ''Hola''
   \<and> fst (translateText (\<lambda>h t l. Body (Some ''Adios''))  ''Hi'' ''es''
        \<lparr>translationsMap = [(''es'', [(''Hi'', ''Hola''), (''Bye'', '''')])],
         fileContent = Doc [(''es'', [(''Hi'', ''Hola''), (''Bye'', '''')])],
         writable = True, writes = 0, calls = []\<rparr>) = Inr ''Hola''
   \<and> calls (snd (translateText (\<lambda>h t l. Body (Some ''Adios'')) ''Hi'' ''es''
        \<lparr>translationsMap = [(''es'', [(''Hi'', ''Hola''), (''Bye'', '''')])],
         fileContent = Doc [(''es'', [(''Hi'', ''Hola''), (''Bye'', '''')])],
         writable = True, writes = 0, calls = []\<rparr>)) = []
   \<and> fst (translateText (\<lambda>h t l. NotOk) ''Hi'' ''es''
        (snd (translateText (\<lambda>h t l. Body (Some ''Adios'')) ''Hi'' ''es''
        \<lparr>translationsMap = [(''es'', [(''Hi'', ''Hola''), (''Bye'', '''')])],
         fileContent = Doc [(''es'', [(''Hi'', ''Hola''), (''Bye'', '''')])],
         writable = True, writes = 0, calls = []\<rparr>))) = Inr ''Hola''
   \<and> lookup (translationsMap (checkFileUpdates
        \<lparr>translationsMap = [(''es'', [(''Hi'', ''Hola''), (''Bye'', '''')])],
         fileContent = Doc [(''es'', [(''Hi'', ''Hola''), (''Bye'', '''')])],
         writable = True, writes = 0, calls = []\<rparr>)) ''es'' ''Bye'' = Some ''''
   \<and> calls (snd (translateText (\<lambda>h t l. Body (Some ''Adios'')) ''Bye'' ''es''
        \<lparr>translationsMap = [(''es'', [(''Hi'', ''Hola''), (''Bye'', '''')])],
         fileContent = Doc [(''es'', [(''Hi'', ''Hola''), (''Bye'', '''')])],
         writable = True, writes = 0, calls = []\<rparr>)) = [(''Bye'', ''es'')]"
  using translateText_cache_hit [of
        "\<lparr>translationsMap = [(''es'', [(''Hi'', ''Hola''), (''Bye'', '''')])],
         fileContent = Doc [(''es'', [(''Hi'', ''Hola''), (''Bye'', '''')])],
         writable = True, writes = 0, calls = []\<rparr>" "''es''" "''Hi''"
        "\<lambda>h t l. Body (Some ''Adios'')" "\<lambda>h t l. NotOk"]
    translateText_cache_hit [of
        "\<lparr>translationsMap = [(''es'', [(''Hi'', ''Hola''), (''Bye'', '''')])],
         fileContent = Doc [(''es'', [(''Hi'', ''Hola''), (''Bye'', '''')])],
         writable = True, writes = 0, calls = []\<rparr>" "''es''" "''Bye''"
        "\<lambda>h t l. Body (Some ''Adios'')" "\<lambda>h t l. NotOk"]
  by (simp add: server_defs)


subsection \<open>C5: a failing remote call\<close>

text \<open>
  C5, as amended: when the remote call of \<open>translateText\<close> fails (the transport rejects,
  the response is not ok, the body cannot be read, or it lacks a non-empty
  \<open>translatedText\<close>), \<open>translateText\<close> rejects, the file is neither changed nor written,
  and the cache is left as the reconciliation with the file, which precedes the lookup,
  produced it: nothing of the failed call is cached.
\<close>

theorem translateText_failure_caches_nothing:
  assumes "wf_disk (fileContent m)"
    and "\<not> truthy (lookup (translationsMap (checkFileUpdates m)) lang text)"
    and "failing (api (calls m) text lang)"
  shows "isl (fst (translateText api text lang m))
       \<and> fileContent (snd (translateText api text lang m)) = fileContent m
       \<and> writes (snd (translateText api text lang m)) = writes m
       \<and> translationsMap (snd (translateText api text lang m))
           = translationsMap (checkFileUpdates m)"
  using translateText_miss_failing [where api = api, OF assms]
  by (simp add: checkFileUpdates_frame)



theorem translateText_failure_caches_nothing_witness:
  "wf_disk (fileContent \<lparr>translationsMap = [], fileContent = Doc [(''es'', [(''a'', ''b'')])],
                         writable = True, writes = 0, calls = []\<rparr>)
   \<and> \<not> truthy (lookup (translationsMap (checkFileUpdates
          \<lparr>translationsMap = [], fileContent = Doc [(''es'', [(''a'', ''b'')])],
           writable = True, writes = 0, calls = []\<rparr>)) ''es'' ''x'')
   \<and> failing ((\<lambda>h t l. NetworkFailure) ([] :: (string \<times> string) list) ''x'' ''es'')
   \<and> isl (fst (translateText (\<lambda>h t l. NetworkFailure) ''x'' ''es''
          \<lparr>translationsMap = [], fileContent = Doc [(''es'', [(''a'', ''b'')])],
           writable = True, writes = 0, calls = []\<rparr>))
   \<and> fileContent (snd (translateText (\<lambda>h t l. NetworkFailure) ''x'' ''es''
          \<lparr>translationsMap = [], fileContent = Doc [(''es'', [(''a'', ''b'')])],
           writable = True, writes = 0, calls = []\<rparr>)) = Doc [(''es'', [(''a'', ''b'')])]
   \<and> lookup (translationsMap (snd (translateText (\<lambda>h t l. NetworkFailure) ''x'' ''es''
          \<lparr>translationsMap = [], fileContent = Doc [(''es'', [(''a'', ''b'')])],
           writable = True, writes = 0, calls = []\<rparr>))) ''es'' ''x'' = None"
  using translateText_failure_caches_nothing [of
          "\<lparr>translationsMap = [], fileContent = Doc [(''es'', [(''a'', ''b'')])],
           writable = True, writes = 0, calls = []\<rparr>" "''es''" "''x''" "\<lambda>h t l. NetworkFailure"]
  by (simp add: server_defs)


text \<open>Against C5 as stated: the manager was created when there was no file, the file
  \<open>{es: {a: b}}\<close> has been written since, and the request for another text fails. The
  call rejects, and the cache is not what it was before the call.\<close>

theorem translateText_failure_modifies_cache_counterexample:
  "isl (fst (translateText (\<lambda>h t l. NetworkFailure) ''x'' ''es''
          ((createTranslationManager Missing True)
             \<lparr>fileContent := Doc [(''es'', [(''a'', ''b'')])]\<rparr>)))
   \<and> translationsMap ((createTranslationManager Missing True)
             \<lparr>fileContent := Doc [(''es'', [(''a'', ''b'')])]\<rparr>) = []
   \<and> translationsMap (snd (translateText (\<lambda>h t l. NetworkFailure) ''x'' ''es''
          ((createTranslationManager Missing True)
             \<lparr>fileContent := Doc [(''es'', [(''a'', ''b'')])]\<rparr>)))
       = [(''es'', [(''a'', ''b'')])]"
  by (simp add: server_defs)

subsection \<open>C6: an automated update of an existing value\<close>

text \<open>
  C6, as amended: \<open>updateTranslation\<close> with \<open>isUserModified = false\<close> writes nothing when
  a non-empty value is present after reconciliation: the call completes in the reconciled
  state, the file is neither changed nor written, and the value stays.
\<close>

theorem updateTranslation_automated_suppressed:
  assumes "lookup (translationsMap (checkFileUpdates m)) lang text = Some v" and "v \<noteq> []"
  shows "updateTranslation text lang translation False m = (Inr (), checkFileUpdates m)
       \<and> fileContent (checkFileUpdates m) = fileContent m
       \<and> writes (checkFileUpdates m) = writes m"
  using updateTranslation_suppressed [OF assms] by (simp add: checkFileUpdates_frame)


text \<open>The example of the claim: the file holds \<open>{es: {hi: hola}}\<close> and the update to
  \<open>buenos\<close> is suppressed.\<close>

theorem updateTranslation_automated_suppressed_witness:
  "lookup (translationsMap (checkFileUpdates
        \<lparr>translationsMap = [], fileContent = Doc [(''es'', [(''hi'', ''hola'')])],
         writable = True, writes = 0, calls = []\<rparr>)) ''es'' ''hi'' = Some ''hola''
   \<and> ''hola'' \<noteq> []
   \<and> fst (updateTranslation ''hi'' ''es'' ''buenos'' False
        \<lparr>translationsMap = [], fileContent = Doc [(''es'', [(''hi'', ''hola'')])],
         writable = True, writes = 0, calls = []\<rparr>) = Inr ()
   \<and> stored (fileContent (snd (updateTranslation ''hi'' ''es'' ''buenos'' False
        \<lparr>translationsMap = [], fileContent = Doc [(''es'', [(''hi'', ''hola'')])],
         writable = True, writes = 0, calls = []\<rparr>))) ''es'' ''hi'' = Some ''hola''
   \<and> lookup (translationsMap (snd (updateTranslation ''hi'' ''es'' ''buenos'' False
        \<lparr>translationsMap = [], fileContent = Doc [(''es'', [(''hi'', ''hola'')])],
         writable = True, writes = 0, calls = []\<rparr>))) ''es'' ''hi'' = Some ''hola''
   \<and> writes (snd (updateTranslation ''hi'' ''es'' ''buenos'' False
        \<lparr>translationsMap = [], fileContent = Doc [(''es'', [(''hi'', ''hola'')])],
         writable = True, writes = 0, calls = []\<rparr>)) = 0"
  using updateTranslation_automated_suppressed [of
        "\<lparr>translationsMap = [], fileContent = Doc [(''es'', [(''hi'', ''hola'')])],
         writable = True, writes = 0, calls = []\<rparr>" "''es''" "''hi''" "''hola''" "''buenos''"]
  by (simp add: server_defs)


text \<open>Against C6 as stated: the manager has loaded \<open>{es: {hi: ""}}\<close> and the file has
  been emptied to \<open>{}\<close> since. The existing value is the empty string, which the test
  \<open>!currentTranslation\<close> takes for no value; the update is written to the cache and to
  the file.\<close>

theorem updateTranslation_empty_existing_counterexample:
  "lookup (translationsMap (checkFileUpdates
        ((createTranslationManager (Doc [(''es'', [(''hi'', '''')])]) True)
           \<lparr>fileContent := Doc []\<rparr>))) ''es'' ''hi'' = Some ''''
   \<and> fst (updateTranslation ''hi'' ''es'' ''buenos'' False
        ((createTranslationManager (Doc [(''es'', [(''hi'', '''')])]) True)
           \<lparr>fileContent := Doc []\<rparr>)) = Inr ()
   \<and> stored (fileContent (snd (updateTranslation ''hi'' ''es'' ''buenos'' False
        ((createTranslationManager (Doc [(''es'', [(''hi'', '''')])]) True)
           \<lparr>fileContent := Doc []\<rparr>)))) ''es'' ''hi'' = Some ''buenos''
   \<and> lookup (translationsMap (snd (updateTranslation ''hi'' ''es'' ''buenos'' False
        ((createTranslationManager (Doc [(''es'', [(''hi'', '''')])]) True)
           \<lparr>fileContent := Doc []\<rparr>)))) ''es'' ''hi'' = Some ''buenos''
   \<and> writes (snd (updateTranslation ''hi'' ''es'' ''buenos'' False
        ((createTranslationManager (Doc [(''es'', [(''hi'', '''')])]) True)
           \<lparr>fileContent := Doc []\<rparr>))) = 1"
  by (simp add: server_defs)

subsection \<open>C10: reconciliation never removes an entry\<close>

text \<open>
  C10: every entry of the cache is still in the cache after \<open>checkFileUpdates\<close>, with the
  value of the file when the file has the entry and with its own value otherwise; so an
  entry deleted from the file stays in the cache, and a following \<open>saveTranslations\<close>
  that succeeds writes it back to the file.
\<close>

theorem checkFileUpdates_never_removes:
  assumes wt: "wf_store (translationsMap m)" and wd: "wf_disk (fileContent m)"
    and lk: "lookup (translationsMap m) lang text = Some v"
  shows "lookup (translationsMap (checkFileUpdates m)) lang text =
           Some (case stored (fileContent m) lang text of Some w \<Rightarrow> w | None \<Rightarrow> v)
       \<and> (stored (fileContent m) lang text = None \<and> fileContent m \<noteq> Garbled \<and> writable m \<longrightarrow>
            fst (saveTranslations (checkFileUpdates m)) = Inr ()
          \<and> stored (fileContent (snd (saveTranslations (checkFileUpdates m)))) lang text = Some v)"
proof (intro conjI impI)
  show l1: "lookup (translationsMap (checkFileUpdates m)) lang text =
           Some (case stored (fileContent m) lang text of Some w \<Rightarrow> w | None \<Rightarrow> v)"
    by (simp add: lookup_checkFileUpdates_stored [OF wd] lk split: option.splits)
  assume a: "stored (fileContent m) lang text = None \<and> fileContent m \<noteq> Garbled \<and> writable m"
  define m1 where "m1 = checkFileUpdates m"
  from a obtain d where d: "readCurrent (fileContent m1) = Some d"
    by (cases "fileContent m") (auto simp: m1_def checkFileUpdates_frame)
  have wfd: "wf_store d"
    by (rule readCurrent_wf [OF _ d]) (simp add: m1_def checkFileUpdates_frame wd)
  have w1: "wf_store (translationsMap m1)"
    unfolding m1_def by (rule wf_store_checkFileUpdates [OF wt])
  have wr: "writable m1" using a by (simp add: m1_def checkFileUpdates_frame)
  have has: "Map_has (translationsMap m1) lang"
    using l1 by (auto simp: m1_def lookup_def Map_get_def Map_has_iff split: option.splits)
  from saveTranslations_ok [OF d wfd w1 wr] obtain m' where
    sv: "saveTranslations m1 = (Inr (), m')"
    and fc: "fileContent m' = Doc (mergeData d (memoryData_of (translationsMap m1)))"
    by blast
  have s1: "stored (fileContent m1) lang text = None"
    and l1': "lookup (translationsMap m1) lang text = Some v"
    using a l1 by (simp_all add: m1_def checkFileUpdates_frame)
  have "stored (fileContent m') lang text = Some v"
    using has s1 l1'
    by (simp add: fc lookup_mergeData [OF wfd w1] lookup_readCurrent [OF d])
  with sv show "fst (saveTranslations (checkFileUpdates m)) = Inr ()"
    and "stored (fileContent (snd (saveTranslations (checkFileUpdates m)))) lang text = Some v"
    by (simp_all add: m1_def)
qed



theorem checkFileUpdates_never_removes_witness:
  "wf_store (translationsMap \<lparr>translationsMap = [(''es'', [(''hi'', ''hola''), (''bye'', ''adios'')])],
         fileContent = Doc [(''es'', [(''hi'', ''hola'')])], writable = True, writes = 0, calls = []\<rparr>)
   \<and> wf_disk (Doc [(''es'', [(''hi'', ''hola'')])])
   \<and> stored (Doc [(''es'', [(''hi'', ''hola'')])]) ''es'' ''bye'' = None
   \<and> lookup (translationsMap (checkFileUpdates
        \<lparr>translationsMap = [(''es'', [(''hi'', ''hola''), (''bye'', ''adios'')])],
         fileContent = Doc [(''es'', [(''hi'', ''hola'')])], writable = True, writes = 0, calls = []\<rparr>))
        ''es'' ''bye'' = Some ''adios''
   \<and> fst (saveTranslations (checkFileUpdates
        \<lparr>translationsMap = [(''es'', [(''hi'', ''hola''), (''bye'', ''adios'')])],
         fileContent = Doc [(''es'', [(''hi'', ''hola'')])], writable = True, writes = 0, calls = []\<rparr>))
       = Inr ()
   \<and> stored (fileContent (snd (saveTranslations (checkFileUpdates
        \<lparr>translationsMap = [(''es'', [(''hi'', ''hola''), (''bye'', ''adios'')])],
         fileContent = Doc [(''es'', [(''hi'', ''hola'')])], writable = True, writes = 0, calls = []\<rparr>))))
        ''es'' ''bye'' = Some ''adios''"
  using checkFileUpdates_never_removes [of
        "\<lparr>translationsMap = [(''es'', [(''hi'', ''hola''), (''bye'', ''adios'')])],
         fileContent = Doc [(''es'', [(''hi'', ''hola'')])], writable = True, writes = 0, calls = []\<rparr>"
        "''es''" "''bye''" "''adios''"]
  by (simp add: server_defs)

section \<open>Lemmas about the client-side component\<close>

lemma childAt_SomeE:
  assumes "childAt n i = Some c"
  obtains t g ns where "n = Elem t g (Nodes ns)" "i < length ns" "c = ns ! i"
  using assms by (cases "(n, i)" rule: childAt.cases) (auto split: if_splits)

lemma subtreeAt_applyTranslations:
  "subtreeAt n p = Some (Elem tag True kids) \<Longrightarrow>
     subtreeAt (applyTranslations tm n) p = Some (Elem tag True kids)"
proof (induction p arbitrary: n)
  case Nil
  then show ?case by simp
next
  case (Cons i p)
  then obtain c where c: "childAt n i = Some c" and sub: "subtreeAt c p = Some (Elem tag True kids)"
    by (auto split: option.splits)
  from c obtain t g ns where n: "n = Elem t g (Nodes ns)" and i: "i < length ns" and ci: "c = ns ! i"
    by (rule childAt_SomeE)
  show ?case
  proof (cases g)
    case True
    with n Cons.prems show ?thesis by simp
  next
    case False
    with n i ci Cons.IH [OF sub] show ?thesis by simp
  qed
qed

lemma collectTranslations_replaceAt:
  "subtreeAt n p = Some (Elem tag True kids) \<Longrightarrow>
     collectTranslations (replaceAt n p (Elem tag2 True kids2)) depth = collectTranslations n depth"
proof (induction p arbitrary: n depth)
  case Nil
  then show ?case by simp
next
  case (Cons i p)
  then obtain c where c: "childAt n i = Some c" and sub: "subtreeAt c p = Some (Elem tag True kids)"
    by (auto split: option.splits)
  from c obtain t g ns where n: "n = Elem t g (Nodes ns)" and i: "i < length ns" and ci: "c = ns ! i"
    by (rule childAt_SomeE)
  have "map (\<lambda>child. collectTranslations child (depth + 1))
            (ns[i := replaceAt (ns ! i) p (Elem tag2 True kids2)]) =
        map (\<lambda>child. collectTranslations child (depth + 1)) ns"
    using Cons.IH [OF sub, of "depth + 1"] i ci
    by (simp add: map_update list_update_same_conv)
  with n i show ?case by simp
qed

lemma queueOf_replaceAtList:
  assumes "subtreeAtList children p = Some (Elem tag True kids)"
  shows "queueOf (replaceAtList children p (Elem tag2 True kids2)) = queueOf children"
proof (cases p)
  case Nil
  with assms show ?thesis by simp
next
  case (Cons i q)
  with assms have i: "i < length children"
    and sub: "subtreeAt (children ! i) q = Some (Elem tag True kids)"
    by (auto split: if_splits)
  have "map (\<lambda>child. collectTranslations child 0)
            (children[i := replaceAt (children ! i) q (Elem tag2 True kids2)]) =
        map (\<lambda>child. collectTranslations child 0) children"
    using collectTranslations_replaceAt [OF sub, of tag2 kids2 0] i
    by (simp add: map_update list_update_same_conv)
  with Cons i show ?thesis by (simp add: queueOf_def)
qed

lemma traverseAndTranslate_queueOf:
  "traverseAndTranslate api children lang s =
     (case fillTranslationMap api lang (sort_key snd (queueOf children)) [] s of
        (Inl e, s') \<Rightarrow> (Inl e, s')
      | (Inr translationMap, s') \<Rightarrow> (Inr (map (applyTranslations translationMap) children), s'))"
  by (simp add: traverseAndTranslate_def queueOf_def Let_def)

lemma subtreeAtList_map_applyTranslations:
  "subtreeAtList children p = Some (Elem tag True kids) \<Longrightarrow>
     subtreeAtList (map (applyTranslations tm) children) p = Some (Elem tag True kids)"
  by (cases p) (auto simp: subtreeAt_applyTranslations split: if_splits)











lemmas client_defs =
  traverseAndTranslate_def fillTranslationMap.simps translateText_client_def
  getTranslation_client_def setTranslation_def getCacheKey_def substitute_def
  trim_def leadingSpace_def trailingSpace_def startsWith_def whiteSpaceCodes_def
  sent_def queueOf_def cachedTruthy_def
  performTranslation_def effect_def render_def mount_def rendered_def toArray_def
  Map_set_def Map_has_def Map_get_def Let_def





section \<open>Claims about the client-side component\<close>

subsection \<open>C3: degradation when the remote call fails\<close>








subsection \<open>C7: one request for each text\<close>







subsection \<open>C8: subtrees marked ignore\<close>

text \<open>
  C8: an element with the \<open>ignore\<close> property queues nothing and is returned as it is by
  the rebuild; at any position in the tree, what such an element contains has no effect
  on the queue or on the requests and the session cache after the traversal, and the
  result of a traversal that completes has the same subtree at the same position,
  whatever the language and the translations.
\<close>

theorem ignore_passthrough:
  assumes "subtreeAtList children p = Some (Elem tag True kids)"
  shows "collectTranslations (Elem tag True kids) depth = []
       \<and> applyTranslations tm (Elem tag True kids) = Elem tag True kids
       \<and> queueOf (replaceAtList children p (Elem tag2 True kids2)) = queueOf children
       \<and> snd (traverseAndTranslate api (replaceAtList children p (Elem tag2 True kids2)) lang s)
           = snd (traverseAndTranslate api children lang s)
       \<and> (\<forall>out. fst (traverseAndTranslate api children lang s) = Inr out \<longrightarrow>
             subtreeAtList out p = Some (Elem tag True kids))"
proof -
  have q: "queueOf (replaceAtList children p (Elem tag2 True kids2)) = queueOf children"
    by (rule queueOf_replaceAtList [OF assms])
  have "snd (traverseAndTranslate api (replaceAtList children p (Elem tag2 True kids2)) lang s)
           = snd (traverseAndTranslate api children lang s)"
    by (simp add: traverseAndTranslate_queueOf q split: prod.splits sum.splits)
  moreover have "subtreeAtList out p = Some (Elem tag True kids)"
    if "fst (traverseAndTranslate api children lang s) = Inr out" for out
    using that subtreeAtList_map_applyTranslations [OF assms]
    by (auto simp: traverseAndTranslate_queueOf split: prod.splits sum.splits)
  ultimately show ?thesis using q by simp
qed



theorem ignore_passthrough_witness:
  "subtreeAtList [Elem ''div'' False
                     (Nodes [Str ''Hello'', Elem ''span'' True (OnlyStr ''Stay'')])] [0, 1]
     = Some (Elem ''span'' True (OnlyStr ''Stay''))
   \<and> fst (traverseAndTranslate (\<lambda>h t l. Body (Some ''Hola''))
            [Elem ''div'' False (Nodes [Str ''Hello'', Elem ''span'' True (OnlyStr ''Stay'')])]
            ''es'' \<lparr>memoryCache = [], requests = []\<rparr>)
       = Inr [Elem ''div'' False (Nodes [Str ''Hola'', Elem ''span'' True (OnlyStr ''Stay'')])]
   \<and> subtreeAtList
         [Elem ''div'' False (Nodes [Str ''Hola'', Elem ''span'' True (OnlyStr ''Stay'')])] [0, 1]
     = Some (Elem ''span'' True (OnlyStr ''Stay''))
   \<and> requests (snd (traverseAndTranslate (\<lambda>h t l. Body (Some ''Hola''))
            [Elem ''div'' False (Nodes [Str ''Hello'', Elem ''span'' True (OnlyStr ''Stay'')])]
            ''es'' \<lparr>memoryCache = [], requests = []\<rparr>)) = [(''Hello'', ''es'')]"
  using ignore_passthrough [of
          "[Elem ''div'' False (Nodes [Str ''Hello'', Elem ''span'' True (OnlyStr ''Stay'')])]"
          "[0, 1]" "''span''" "OnlyStr ''Stay''" 0 "[]" "''b''" "Nodes [Str ''More'']"
          "\<lambda>h t l. Body (Some ''Hola'')" "''es''" "\<lparr>memoryCache = [], requests = []\<rparr>"]
  by (simp add: client_defs)


subsection \<open>C9: what retriggers a translation\<close>

text \<open>
  C9 says that a change of the target language alone starts a new translation pass.
  Evaluated on a component whose child is the string \<open>Hello\<close>: the first render with
  \<open>lang = "es"\<close> runs one pass and shows \<open>Hola\<close>; the next render with the same
  \<open>children\<close> and \<open>lang = "fr"\<close> runs the effect, which returns at
  \<open>if (!hasChildrenChanged) return\<close>: no pass is started, no request is sent and the
  content stays \<open>Hola\<close>. With another \<open>children\<close> reference the same render starts a
  second pass and shows \<open>Bonjour\<close>.
\<close>

theorem language_change_not_retriggered:
  "passes (fst (render (\<lambda>h t l. if l = ''es'' then Body (Some ''Hola'') else Body (Some ''Bonjour''))
                  (1, [Str ''Hello'']) ''es'' True
                  (mount (1, [Str ''Hello'']), \<lparr>memoryCache = [], requests = []\<rparr>))) = 1
   \<and> translatedContent (fst (render (\<lambda>h t l. if l = ''es'' then Body (Some ''Hola'') else Body (Some ''Bonjour''))
                  (1, [Str ''Hello'']) ''es'' True
                  (mount (1, [Str ''Hello'']), \<lparr>memoryCache = [], requests = []\<rparr>))) = [Str ''Hola'']
   \<and> passes (fst (render (\<lambda>h t l. if l = ''es'' then Body (Some ''Hola'') else Body (Some ''Bonjour''))
                  (1, [Str ''Hello'']) ''fr'' True
            (render (\<lambda>h t l. if l = ''es'' then Body (Some ''Hola'') else Body (Some ''Bonjour''))
                  (1, [Str ''Hello'']) ''es'' True
                  (mount (1, [Str ''Hello'']), \<lparr>memoryCache = [], requests = []\<rparr>)))) = 1
   \<and> translatedContent (fst (render (\<lambda>h t l. if l = ''es'' then Body (Some ''Hola'') else Body (Some ''Bonjour''))
                  (1, [Str ''Hello'']) ''fr'' True
            (render (\<lambda>h t l. if l = ''es'' then Body (Some ''Hola'') else Body (Some ''Bonjour''))
                  (1, [Str ''Hello'']) ''es'' True
                  (mount (1, [Str ''Hello'']), \<lparr>memoryCache = [], requests = []\<rparr>)))) = [Str ''Hola'']
   \<and> requests (snd (render (\<lambda>h t l. if l = ''es'' then Body (Some ''Hola'') else Body (Some ''Bonjour''))
                  (1, [Str ''Hello'']) ''fr'' True
            (render (\<lambda>h t l. if l = ''es'' then Body (Some ''Hola'') else Body (Some ''Bonjour''))
                  (1, [Str ''Hello'']) ''es'' True
                  (mount (1, [Str ''Hello'']), \<lparr>memoryCache = [], requests = []\<rparr>)))) = [(''Hello'', ''es'')]
   \<and> passes (fst (render (\<lambda>h t l. if l = ''es'' then Body (Some ''Hola'') else Body (Some ''Bonjour''))
                  (2, [Str ''Hello'']) ''fr'' True
            (render (\<lambda>h t l. if l = ''es'' then Body (Some ''Hola'') else Body (Some ''Bonjour''))
                  (1, [Str ''Hello'']) ''es'' True
                  (mount (1, [Str ''Hello'']), \<lparr>memoryCache = [], requests = []\<rparr>)))) = 2
   \<and> translatedContent (fst (render (\<lambda>h t l. if l = ''es'' then Body (Some ''Hola'') else Body (Some ''Bonjour''))
                  (2, [Str ''Hello'']) ''fr'' True
            (render (\<lambda>h t l. if l = ''es'' then Body (Some ''Hola'') else Body (Some ''Bonjour''))
                  (1, [Str ''Hello'']) ''es'' True
                  (mount (1, [Str ''Hello'']), \<lparr>memoryCache = [], requests = []\<rparr>)))) = [Str ''Bonjour'']"
  by (simp add: client_defs)

end
